theory Spec2Isabelle
  imports Main "HOL-Library.Word"
begin

unbundle bit_operations_syntax

section \<open>x62-fancontrol: data model\<close>

text \<open>
  The program is one C file, \<^verbatim>\<open>x62-fancontrol.c\<close>. An \<^verbatim>\<open>unsigned char\<close> is an
  8-bit word (\<open><\<close> on words is the unsigned comparison, which is what C computes after
  promoting both operands to \<^verbatim>\<open>int\<close>). The level index and the level count are C
  \<^verbatim>\<open>int\<close>s; they are modelled as \<open>int\<close>: the index only moves by one inside
  \<open>0 .. num_levels - 1\<close>, so no arithmetic on it can overflow.
\<close>

type_synonym byte = "8 word"

text \<open>\<^verbatim>\<open>struct temp_level { unsigned char enter; unsigned char leave; unsigned char fan_speed; }\<close>\<close>

record temp_level =
  enter :: byte
  leave :: byte
  fan_speed :: byte

definition mk_level :: "byte \<Rightarrow> byte \<Rightarrow> byte \<Rightarrow> temp_level" where
  "mk_level en lv sp = \<lparr>enter = en, leave = lv, fan_speed = sp\<rparr>"

text \<open>The table \<^verbatim>\<open>default_levels\<close> and its length \<^verbatim>\<open>num_default_levels\<close>.\<close>

definition default_levels :: "temp_level list" where
  "default_levels =
     [mk_level 40 0 100,
      mk_level 55 40 99,
      mk_level 65 45 60,
      mk_level 70 55 20,
      mk_level 85 60 1]"

definition num_default_levels :: int where
  "num_default_levels = 5"

text \<open>
  A read \<^verbatim>\<open>levels[i]\<close> of the array passed to \<^verbatim>\<open>fan_manager\<close>. The array is the list;
  a read outside it is undefined behaviour in C and \<open>None\<close> here.
\<close>

definition level_at :: "temp_level list \<Rightarrow> int \<Rightarrow> temp_level option" where
  "level_at levels i =
     (if 0 \<le> i \<and> i < int (length levels) then Some (levels ! nat i) else None)"

section \<open>The hysteresis decision\<close>

text \<open>
  The level update of one pass through the loop of \<^verbatim>\<open>fan_manager\<close> (lines 198--214),
  without the printing:
  \<^verbatim>\<open>
  if (temp < levels[level].leave && level > 0) { level--; }
  else if (level < num_levels-1 && temp > levels[level+1].enter) { level++; }
  else { }
  \<close>
  The first condition reads \<^verbatim>\<open>levels[level]\<close> before it tests \<^verbatim>\<open>level > 0\<close>; the second
  reads \<^verbatim>\<open>levels[level+1]\<close> only when \<^verbatim>\<open>level < num_levels-1\<close> holds (\<^verbatim>\<open>&&\<close> evaluates
  left to right and stops early). \<open>None\<close> is a read out of range.
\<close>

definition next_level :: "int \<Rightarrow> temp_level list \<Rightarrow> int \<Rightarrow> byte \<Rightarrow> int option" where
  "next_level num_levels levels level temp =
     (case level_at levels level of
        None \<Rightarrow> None
      | Some cur \<Rightarrow>
          if temp < leave cur \<and> level > 0 then Some (level - 1)
          else if level < num_levels - 1 then
            (case level_at levels (level + 1) of
               None \<Rightarrow> None
             | Some nxt \<Rightarrow> if temp > enter nxt then Some (level + 1) else Some level)
          else Some level)"

text \<open>
  The loop of \<^verbatim>\<open>fan_manager\<close> on a given sequence of temperature samples, one pass per
  sample: the level after each pass.
\<close>

fun run_levels :: "int \<Rightarrow> temp_level list \<Rightarrow> int \<Rightarrow> byte list \<Rightarrow> int list option" where
  "run_levels num_levels levels level [] = Some []"
| "run_levels num_levels levels level (temp # temps) =
     (case next_level num_levels levels level temp of
        None \<Rightarrow> None
      | Some level' \<Rightarrow>
          (case run_levels num_levels levels level' temps of
             None \<Rightarrow> None
           | Some ls \<Rightarrow> Some (level' # ls)))"

text \<open>
  The rule as the specification words it (section 4.4), for a ladder of \<open>N\<close> levels: down
  when \<open>i > 0\<close> and \<open>t < ladder[i].leave\<close>, else up when \<open>i < N - 1\<close> and
  \<open>t > ladder[i + 1].enter\<close>, else stay.
\<close>

definition spec_decide :: "temp_level list \<Rightarrow> int \<Rightarrow> byte \<Rightarrow> int" where
  "spec_decide ladder i t =
     (if i > 0 \<and> t < leave (ladder ! nat i) then i - 1
      else if i < int (length ladder) - 1 \<and> t > enter (ladder ! nat (i + 1)) then i + 1
      else i)"

section \<open>The machine the program runs on\<close>

text \<open>
  Everything the program does to the outside is an event of a trace, in the order in which
  it happens: a formatted print (the format string of the source and its arguments), a call
  of \<^verbatim>\<open>ioperm\<close>, the write to the PCI configuration space, a port write, a port read with
  the value it returned, a sleep.
\<close>

datatype arg = I int | S string

datatype event =
    Stdout string "arg list"
  | Stderr string "arg list"
  | Ioperm nat nat
  | Pci_write_long nat nat nat
  | Outb byte nat
  | Inb nat byte
  | Usleep nat

text \<open>
  What the outside answers. \<open>inb_val e k port\<close> is the byte the \<open>k\<close>-th port read of the
  run returns (reads are counted from 0) when it reads \<open>port\<close>: any behaviour of the
  embedded controller is one such function. \<open>ioperm_ret\<close> is the return value of
  \<^verbatim>\<open>ioperm(from, num, 1)\<close>, \<open>strerror_errno\<close> the text of \<^verbatim>\<open>strerror(errno)\<close> after it
  failed, \<open>pci_devices\<close> the vendor and device identifiers of the devices \<^verbatim>\<open>pci_scan_bus\<close>
  found, in list order. \<open>pci_init_error\<close> and \<open>pci_scan_error\<close> are the failures of
  libpci: when \<^verbatim>\<open>pci_init\<close> (or \<^verbatim>\<open>pci_scan_bus\<close>) fails, it calls the error function of the
  access structure with the message and the arguments given here, and that function is
  \<^verbatim>\<open>die\<close>, since \<^verbatim>\<open>initialize_pci\<close> sets \<^verbatim>\<open>pacc->error = die\<close>; \<open>None\<close> is a call that
  succeeds. \<^verbatim>\<open>pci_alloc\<close>, \<^verbatim>\<open>pci_write_long\<close> and \<^verbatim>\<open>pci_cleanup\<close> do not go through that
  function here.
\<close>

record env =
  inb_val :: "nat \<Rightarrow> nat \<Rightarrow> byte"
  ioperm_ret :: "nat \<Rightarrow> nat \<Rightarrow> int"
  strerror_errno :: string
  pci_devices :: "(nat \<times> nat) list"
  pci_init_error :: "(string \<times> arg list) option"
  pci_scan_error :: "(string \<times> arg list) option"

record world =
  trace :: "event list"
  reads :: nat

definition initial_world :: world where
  "initial_world = \<lparr>trace = [], reads = 0\<rparr>"

text \<open>
  A function of the program either returns (\<open>Ok\<close>), or ends the process through
  \<^verbatim>\<open>exit(status)\<close> (\<open>Exit\<close>), or reads the level array out of range (\<open>Fault\<close>). \<open>Running\<close>
  is the process that is still inside the endless loop of \<^verbatim>\<open>fan_manager\<close> after the number
  of passes that was asked for.
\<close>

datatype 'a result = Ok 'a world | Exit int world | Fault world | Running world

definition return :: "'a \<Rightarrow> world \<Rightarrow> 'a result" where
  "return x w = Ok x w"

definition bind :: "(world \<Rightarrow> 'a result) \<Rightarrow> ('a \<Rightarrow> world \<Rightarrow> 'b result) \<Rightarrow> world \<Rightarrow> 'b result" where
  "bind m f w =
     (case m w of
        Ok x w' \<Rightarrow> f x w'
      | Exit status w' \<Rightarrow> Exit status w'
      | Fault w' \<Rightarrow> Fault w'
      | Running w' \<Rightarrow> Running w')"

definition emit :: "event \<Rightarrow> world \<Rightarrow> world" where
  "emit ev w = w\<lparr>trace := trace w @ [ev]\<rparr>"

definition printf :: "string \<Rightarrow> arg list \<Rightarrow> world \<Rightarrow> unit result" where
  "printf fmt args w = Ok () (emit (Stdout fmt args) w)"

definition outb :: "byte \<Rightarrow> nat \<Rightarrow> world \<Rightarrow> unit result" where
  "outb val port w = Ok () (emit (Outb val port) w)"

definition inb :: "env \<Rightarrow> nat \<Rightarrow> world \<Rightarrow> byte result" where
  "inb e port w =
     (let val = inb_val e (reads w) port
      in Ok val (emit (Inb port val) (w\<lparr>reads := Suc (reads w)\<rparr>)))"

definition usleep :: "nat \<Rightarrow> world \<Rightarrow> unit result" where
  "usleep usec w = Ok () (emit (Usleep usec) w)"

section \<open>Fatal errors\<close>

text \<open>
  \<^verbatim>\<open>vdie_status\<close> prints the program name, the message and a newline to stderr and calls
  \<^verbatim>\<open>exit(status)\<close>; \<^verbatim>\<open>die_status\<close> passes its arguments on; \<^verbatim>\<open>die\<close> is status 1.
\<close>

definition vdie_status :: "int \<Rightarrow> string \<Rightarrow> arg list \<Rightarrow> world \<Rightarrow> 'a result" where
  "vdie_status status msg args w =
     Exit status
       (emit (Stderr ''\<newline>'' [])
          (emit (Stderr msg args)
             (emit (Stderr ''x62-fancontrol: '' []) w)))"

definition die_status :: "int \<Rightarrow> string \<Rightarrow> arg list \<Rightarrow> world \<Rightarrow> 'a result" where
  "die_status status msg args = vdie_status status msg args"

definition die :: "string \<Rightarrow> arg list \<Rightarrow> world \<Rightarrow> 'a result" where
  "die msg args = vdie_status 1 msg args"

section \<open>Fan control and temperature\<close>

definition get_perm :: "env \<Rightarrow> nat \<Rightarrow> nat \<Rightarrow> world \<Rightarrow> unit result" where
  "get_perm e from num w =
     (let err = ioperm_ret e from num; w1 = emit (Ioperm from num) w
      in if err \<noteq> 0
         then die ''Could not set permission from 0x%x to 0x%x: %s''
                [I (int from), I (int from + int num - 1), S (strerror_errno e)] w1
         else Ok () w1)"

definition get_perms :: "env \<Rightarrow> world \<Rightarrow> unit result" where
  "get_perms e =
     bind (printf ''Getting IO ports permissions\<newline>'' []) (\<lambda>_.
     bind (get_perm e 0x4E 2) (\<lambda>_.
     bind (get_perm e 0x68 1) (\<lambda>_.
     get_perm e 0x6C 1)))"

text \<open>
  The loop of \<^verbatim>\<open>initialize_pci\<close> over the device list. \<open>idx\<close> is the position of
  \<^verbatim>\<open>current_device\<close> in the list and \<open>device\<close> the position of the match so far (\<open>None\<close> is
  the \<^verbatim>\<open>NULL\<close> pointer).
\<close>

fun match_device :: "(nat \<times> nat) list \<Rightarrow> nat \<Rightarrow> nat option \<Rightarrow> world \<Rightarrow> nat option result" where
  "match_device [] idx device w = Ok device w"
| "match_device ((vendor_id, device_id) # rest) idx device w =
     bind (printf ''    Testing device %x:%x\<newline>'' [I (int vendor_id), I (int device_id)]) (\<lambda>_.
       if vendor_id = 0x8086 \<and> device_id = 0x9cc3 then
         bind (printf ''      Match!\<newline>'' []) (\<lambda>_.
           if device \<noteq> None then die ''Matched multiple devices!'' []
           else (\<lambda>w'. match_device rest (Suc idx) (Some idx) w'))
       else (\<lambda>w'. match_device rest (Suc idx) device w')) w"

text \<open>
  \<^verbatim>\<open>pci_init(pacc)\<close> and \<^verbatim>\<open>pci_scan_bus(pacc)\<close> with \<^verbatim>\<open>pacc->error = die\<close>: a failure of the
  library ends the process through \<^verbatim>\<open>die\<close>, with the library's message.
\<close>

definition pci_init :: "env \<Rightarrow> world \<Rightarrow> unit result" where
  "pci_init e =
     (case pci_init_error e of None \<Rightarrow> return () | Some (msg, args) \<Rightarrow> die msg args)"

definition pci_scan_bus :: "env \<Rightarrow> world \<Rightarrow> unit result" where
  "pci_scan_bus e =
     (case pci_scan_error e of None \<Rightarrow> return () | Some (msg, args) \<Rightarrow> die msg args)"

definition initialize_pci :: "env \<Rightarrow> world \<Rightarrow> unit result" where
  "initialize_pci e =
     bind (printf ''  Initializing PCI\<newline>'' []) (\<lambda>_.
     bind (pci_init e) (\<lambda>_.
     bind (pci_scan_bus e) (\<lambda>_.
     bind (printf ''  Finding PCI device\<newline>'' []) (\<lambda>_.
     bind (match_device (pci_devices e) 0 None) (\<lambda>device.
       case device of
         None \<Rightarrow> die ''Could not match any device!'' []
       | Some d \<Rightarrow>
           bind (printf ''  Setting PCI config\<newline>'' []) (\<lambda>_ w.
             Ok () (emit (Pci_write_long d 0x84 0x40069) w)))))))"

text \<open>
  The loops of the two waits. \<^verbatim>\<open>counter\<close> starts at 0 and the loop runs while
  \<^verbatim>\<open>counter <= 1000\<close> and the bit is still wrong; each pass adds one to the counter, sleeps
  1000 microseconds and reads port \<^verbatim>\<open>0x6C\<close> again. The loop returns the last flag (\<^verbatim>\<open>set\<close>, here
  \<open>is_set\<close>, and \<^verbatim>\<open>unset\<close>).
\<close>

function second_bit_loop :: "env \<Rightarrow> int \<Rightarrow> bool \<Rightarrow> world \<Rightarrow> bool result" where
  "second_bit_loop e counter is_set w =
     (if counter \<le> 1000 \<and> is_set then
        bind (usleep 1000) (\<lambda>_.
        bind (inb e 0x6C) (\<lambda>val w'.
          second_bit_loop e (counter + 1) ((val AND 2) = 2) w')) w
      else Ok is_set w)"
  by pat_completeness auto
termination
  by (relation "measure (\<lambda>(e, counter, is_set, w). nat (1001 - counter))") auto

definition wait_0x6C_second_bit_unset :: "env \<Rightarrow> world \<Rightarrow> unit result" where
  "wait_0x6C_second_bit_unset e =
     bind (inb e 0x6C) (\<lambda>val.
     bind (second_bit_loop e 0 ((val AND 2) = 2)) (\<lambda>is_set.
       if is_set then die_status 2 ''The second bit of 0x6C didn't reset!'' []
       else return ()))"

function first_bit_loop :: "env \<Rightarrow> int \<Rightarrow> bool \<Rightarrow> world \<Rightarrow> bool result" where
  "first_bit_loop e counter unset w =
     (if counter \<le> 1000 \<and> unset then
        bind (usleep 1000) (\<lambda>_.
        bind (inb e 0x6C) (\<lambda>val w'.
          first_bit_loop e (counter + 1) ((val AND 1) = 0) w')) w
      else Ok unset w)"
  by pat_completeness auto
termination
  by (relation "measure (\<lambda>(e, counter, unset, w). nat (1001 - counter))") auto

definition wait_0x6C_first_bit_set :: "env \<Rightarrow> world \<Rightarrow> unit result" where
  "wait_0x6C_first_bit_set e =
     bind (inb e 0x6C) (\<lambda>val.
     bind (first_bit_loop e 0 ((val AND 1) = 0)) (\<lambda>unset.
       if unset then die_status 2 ''The first bit of 0x6C didn't get set!'' []
       else return ()))"

definition set_0x6C :: "env \<Rightarrow> byte \<Rightarrow> world \<Rightarrow> unit result" where
  "set_0x6C e val =
     bind (wait_0x6C_second_bit_unset e) (\<lambda>_.
     bind (outb val 0x6C) (\<lambda>_.
     wait_0x6C_second_bit_unset e))"

definition unknown_communication :: "env \<Rightarrow> world \<Rightarrow> unit result" where
  "unknown_communication e =
     bind (printf ''Sending unknown commands\<newline>'' []) (\<lambda>_.
     bind (set_0x6C e 0x33) (\<lambda>_.
     outb 0x06 0x68))"

definition read_temperature :: "env \<Rightarrow> world \<Rightarrow> byte result" where
  "read_temperature e =
     bind (set_0x6C e 0x44) (\<lambda>_.
     bind (outb 0x00 0x68) (\<lambda>_.
     bind (wait_0x6C_first_bit_set e) (\<lambda>_.
     inb e 0x68)))"

definition set_fan_speed :: "env \<Rightarrow> byte \<Rightarrow> world \<Rightarrow> unit result" where
  "set_fan_speed e speed =
     bind (set_0x6C e 0x55) (\<lambda>_.
     outb speed 0x68)"

definition initialize :: "env \<Rightarrow> world \<Rightarrow> unit result" where
  "initialize e =
     bind (printf ''Initializing\<newline>'' []) (\<lambda>_.
     bind (initialize_pci e) (\<lambda>_.
     bind (get_perms e) (\<lambda>_.
     bind (printf ''Send init IO ports commands\<newline>'' []) (\<lambda>_.
     bind (outb 0x07 0x4E) (\<lambda>_.
     bind (outb 0x12 0x4F) (\<lambda>_.
     bind (outb 0x30 0x4E) (\<lambda>_.
     bind (outb 0x00 0x4F) (\<lambda>_.
     bind (outb 0x61 0x4E) (\<lambda>_.
     bind (outb 0x68 0x4F) (\<lambda>_.
     bind (outb 0x63 0x4E) (\<lambda>_.
     bind (outb 0x6C 0x4F) (\<lambda>_.
     bind (outb 0x30 0x4E) (\<lambda>_.
     bind (outb 0x01 0x4F) (\<lambda>_.
     unknown_communication e))))))))))))))"

section \<open>The daemon\<close>

text \<open>A read \<^verbatim>\<open>levels[i]\<close> inside the program: out of range it is the fault.\<close>

definition array_read :: "temp_level list \<Rightarrow> int \<Rightarrow> world \<Rightarrow> temp_level result" where
  "array_read levels i w =
     (case level_at levels i of None \<Rightarrow> Fault w | Some l \<Rightarrow> Ok l w)"

text \<open>
  The end of every pass of the loop, whichever branch was taken:
  \<^verbatim>\<open>set_fan_speed(levels[level].fan_speed); usleep(poll_interval);\<close>
  The value returned is the level the next pass starts from.
\<close>

definition set_level_and_sleep ::
  "env \<Rightarrow> nat \<Rightarrow> temp_level list \<Rightarrow> int \<Rightarrow> world \<Rightarrow> int result" where
  "set_level_and_sleep e poll_interval levels level =
     bind (array_read levels level) (\<lambda>cur.
     bind (set_fan_speed e (fan_speed cur)) (\<lambda>_.
     bind (usleep poll_interval) (\<lambda>_.
     return level)))"

text \<open>
  One pass of the \<^verbatim>\<open>while (1)\<close> loop of \<^verbatim>\<open>fan_manager\<close>, with every print and every read
  of the array that the source makes, in its order.
\<close>

definition fan_manager_pass ::
  "env \<Rightarrow> nat \<Rightarrow> int \<Rightarrow> temp_level list \<Rightarrow> int \<Rightarrow> world \<Rightarrow> int result" where
  "fan_manager_pass e poll_interval num_levels levels level =
     bind (read_temperature e) (\<lambda>temp.
     bind (printf ''Current temperature: %d\<newline>'' [I (uint temp)]) (\<lambda>_.
     bind (bind (array_read levels level) (\<lambda>cur. return (temp < leave cur \<and> level > 0))) (\<lambda>down.
       if down then
         bind (array_read levels level) (\<lambda>cur.
         bind (printf ''  Leaving level %d since the temperature is below %d\<newline>''
                 [I level, I (uint (leave cur))]) (\<lambda>_.
         bind (array_read levels (level - 1)) (\<lambda>new.
         bind (printf ''  New fan speed: %d\<newline>'' [I (uint (fan_speed new))]) (\<lambda>_.
         set_level_and_sleep e poll_interval levels (level - 1)))))
       else
         bind (if level < num_levels - 1
               then bind (array_read levels (level + 1)) (\<lambda>nxt. return (temp > enter nxt))
               else return False) (\<lambda>up.
           if up then
             bind (array_read levels (level + 1)) (\<lambda>nxt.
             bind (printf ''  Leaving level %d since the temperature is above %d\<newline>''
                     [I level, I (uint (enter nxt))]) (\<lambda>_.
             bind (array_read levels (level + 1)) (\<lambda>new.
             bind (printf ''  New fan speed: %d\<newline>'' [I (uint (fan_speed new))]) (\<lambda>_.
             set_level_and_sleep e poll_interval levels (level + 1)))))
           else
             bind (array_read levels level) (\<lambda>cur.
             bind (printf ''  Fan speed: %d\<newline>'' [I (uint (fan_speed cur))]) (\<lambda>_.
             bind (if level > 0
                   then bind (array_read levels level) (\<lambda>c.
                          printf ''  Lower bound: %d\<newline>'' [I (uint (leave c))])
                   else return ()) (\<lambda>_.
             bind (if level < num_levels - 1
                   then bind (array_read levels (level + 1)) (\<lambda>n.
                          printf ''  Upper bound: %d\<newline>'' [I (uint (enter n))])
                   else return ()) (\<lambda>_.
             set_level_and_sleep e poll_interval levels level))))))))"

text \<open>
  The loop never ends by itself, so the model runs a given number of passes: \<open>Ok level w\<close>
  is the level and the world after that many passes, all of which returned.
\<close>

fun fan_manager_loop ::
  "nat \<Rightarrow> env \<Rightarrow> nat \<Rightarrow> int \<Rightarrow> temp_level list \<Rightarrow> int \<Rightarrow> world \<Rightarrow> int result" where
  "fan_manager_loop 0 e poll_interval num_levels levels level w = Ok level w"
| "fan_manager_loop (Suc passes) e poll_interval num_levels levels level w =
     bind (fan_manager_pass e poll_interval num_levels levels level) (\<lambda>level' w'.
       fan_manager_loop passes e poll_interval num_levels levels level' w') w"

text \<open>\<^verbatim>\<open>fan_manager\<close> starts the loop with \<^verbatim>\<open>int level = 0\<close>.\<close>

definition fan_manager ::
  "nat \<Rightarrow> env \<Rightarrow> nat \<Rightarrow> int \<Rightarrow> temp_level list \<Rightarrow> world \<Rightarrow> int result" where
  "fan_manager passes e poll_interval num_levels levels =
     fan_manager_loop passes e poll_interval num_levels levels 0"

section \<open>The command line\<close>

definition usage_text :: string where
  "usage_text =
     ''In every command below we'll fail with error code 2 in\<newline>'' @
     ''the case of unexpected data from an IO port, which is\<newline>'' @
     ''useful since this seems to happen after a resume.\<newline>'' @
     ''\<newline>'' @
     ''x62-fancontrol temp\<newline>'' @
     [CHR 0x09] @ ''Displays the current temperature.\<newline>'' @
     ''\<newline>'' @
     ''x62-fancontrol set-fan-speed <fan-speed>\<newline>'' @
     [CHR 0x09] @ ''Sets the current fan speed. The EC will kick back in after\<newline>'' @
     [CHR 0x09] @ ''a few seconds.\<newline>'' @
     ''\<newline>'' @
     ''x62-fancontrol manager\<newline>'' @
     [CHR 0x09] @ ''Manages the fan speed for you.\<newline>''"

definition usage :: "world \<Rightarrow> 'a result" where
  "usage w = Exit 0 (emit (Stderr usage_text []) w)"

text \<open>
  \<^verbatim>\<open>strtol(s, NULL, 10)\<close> of the C library, as ISO C describes it: white space is skipped,
  then an optional sign, then the longest run of decimal digits; with no digit the value is
  0; a value outside \<^verbatim>\<open>long\<close> is replaced by \<^verbatim>\<open>LONG_MAX\<close> or \<^verbatim>\<open>LONG_MIN\<close> (a 64-bit
  \<^verbatim>\<open>long\<close>, as on the x86-64 Linux the program is written for). What follows the digits
  is ignored, since the end pointer is \<^verbatim>\<open>NULL\<close>.
\<close>

definition isspace :: "char \<Rightarrow> bool" where
  "isspace c = (c \<in> {CHR '' '', CHR 0x09, CHR 0x0A, CHR 0x0B, CHR 0x0C, CHR 0x0D})"

definition isdigit :: "char \<Rightarrow> bool" where
  "isdigit c = (48 \<le> (of_char c :: nat) \<and> (of_char c :: nat) \<le> 57)"

fun digits_value :: "int \<Rightarrow> string \<Rightarrow> int" where
  "digits_value acc [] = acc"
| "digits_value acc (c # cs) =
     (if isdigit c then digits_value (acc * 10 + (of_char c - 48)) cs else acc)"

definition LONG_MAX :: int where
  "LONG_MAX = 2 ^ 63 - 1"

definition LONG_MIN :: int where
  "LONG_MIN = - (2 ^ 63)"

definition strtol :: "string \<Rightarrow> int" where
  "strtol s =
     (let s1 = dropWhile isspace s;
          negative = (case s1 of [] \<Rightarrow> False | c # cs \<Rightarrow> c = CHR ''-'');
          s2 = (case s1 of [] \<Rightarrow> [] | c # cs \<Rightarrow> if c = CHR ''-'' \<or> c = CHR ''+'' then cs else s1);
          magnitude = digits_value 0 s2;
          val = (if negative then - magnitude else magnitude)
      in max LONG_MIN (min LONG_MAX val))"

text \<open>
  \<^verbatim>\<open>main\<close>. \<open>argv\<close> is the argument vector with the program name first, \<^verbatim>\<open>argc\<close> its
  length; \<^verbatim>\<open>strcmp\<close> of two C strings is 0 exactly when they are equal. Falling off the
  end of \<^verbatim>\<open>main\<close> ends the process with status 0. \<open>passes\<close> is the number of passes the
  loop of \<^verbatim>\<open>fan_manager\<close> is run for.
\<close>

definition main :: "nat \<Rightarrow> env \<Rightarrow> string list \<Rightarrow> unit result" where
  "main passes e argv =
     (let argc = int (length argv) in
      if argc = 2 \<and> argv ! 1 = ''temp'' then
        bind (initialize e) (\<lambda>_.
        bind (read_temperature e) (\<lambda>temp.
        bind (printf ''Current temperature: %d\<newline>'' [I (uint temp)]) (\<lambda>_.
        Exit 0)))
      else if argc = 3 \<and> argv ! 1 = ''set-fan-speed'' then
        bind (initialize e) (\<lambda>_.
          let fan_speed_l = strtol (argv ! 2) in
          if fan_speed_l < 0 \<or> fan_speed_l > 255 then
            die ''Invalid fan speed %s'' [S (argv ! 2)]
          else
            let speed = (word_of_int fan_speed_l :: byte) in
            bind (printf ''Setting fan speed to %d\<newline>'' [I (uint speed)]) (\<lambda>_.
            bind (set_fan_speed e speed) (\<lambda>_.
            Exit 0)))
      else if argc = 2 \<and> argv ! 1 = ''manager'' then
        bind (initialize e) (\<lambda>_.
        bind (fan_manager passes e (1 * 1000 * 1000) num_default_levels default_levels) (\<lambda>_.
        Running))
      else usage) initial_world"

section \<open>Observations on a run\<close>

text \<open>
  The port traffic of a trace without the polling of the status port: every port write,
  and every read of the data port \<^verbatim>\<open>0x68\<close>, in order.
\<close>

fun port_traffic :: "event list \<Rightarrow> event list" where
  "port_traffic [] = []"
| "port_traffic (Outb val port # evs) = Outb val port # port_traffic evs"
| "port_traffic (Inb port val # evs) =
     (if port = 0x68 then Inb port val # port_traffic evs else port_traffic evs)"
| "port_traffic (ev # evs) = port_traffic evs"

text \<open>The sleeps of a trace (their lengths in microseconds) and the ports of its reads.\<close>

fun sleeps :: "event list \<Rightarrow> nat list" where
  "sleeps [] = []"
| "sleeps (Usleep usec # evs) = usec # sleeps evs"
| "sleeps (ev # evs) = sleeps evs"

fun inbs :: "event list \<Rightarrow> nat list" where
  "inbs [] = []"
| "inbs (Inb port val # evs) = port # inbs evs"
| "inbs (ev # evs) = inbs evs"

text \<open>
  The port traffic of one pass of the loop of \<^verbatim>\<open>fan_manager\<close> that read the temperature
  \<open>temp\<close> and ended at \<open>level\<close>: the command \<^verbatim>\<open>0x44\<close> and the byte 0 of
  \<^verbatim>\<open>read_temperature\<close>, the temperature read, then the command \<^verbatim>\<open>0x55\<close> and the speed
  of \<^verbatim>\<open>set_fan_speed(levels[level].fan_speed)\<close>.
\<close>

definition pass_traffic :: "temp_level list \<Rightarrow> byte \<Rightarrow> int \<Rightarrow> event list" where
  "pass_traffic levels temp level =
     [Outb 0x44 0x6C, Outb 0x00 0x68, Inb 0x68 temp,
      Outb 0x55 0x6C, Outb (fan_speed (levels ! nat level)) 0x68]"

text \<open>The messages the program dies with.\<close>

definition second_bit_message :: string where
  "second_bit_message = ''The second bit of 0x6C didn't reset!''"

definition first_bit_message :: string where
  "first_bit_message = ''The first bit of 0x6C didn't get set!''"

definition permission_message :: string where
  "permission_message = ''Could not set permission from 0x%x to 0x%x: %s''"

definition multiple_devices_message :: string where
  "multiple_devices_message = ''Matched multiple devices!''"

definition no_device_message :: string where
  "no_device_message = ''Could not match any device!''"

definition invalid_speed_message :: string where
  "invalid_speed_message = ''Invalid fan speed %s''"

text \<open>
  The diagnostic a run ended with: the message between the program name and the newline
  when the last three events are the three prints of \<^verbatim>\<open>vdie_status\<close>.
\<close>

definition diagnostic :: "world \<Rightarrow> string option" where
  "diagnostic w =
     (case rev (trace w) of
        Stderr nl [] # Stderr msg args # Stderr name [] # evs \<Rightarrow>
          if nl = ''\<newline>'' \<and> name = ''x62-fancontrol: '' then Some msg else None
      | _ \<Rightarrow> None)"

definition exit_status :: "'a result \<Rightarrow> int option" where
  "exit_status r = (case r of Exit status w \<Rightarrow> Some status | _ \<Rightarrow> None)"

definition final_trace :: "'a result \<Rightarrow> event list" where
  "final_trace r =
     (case r of Ok x w \<Rightarrow> trace w | Exit status w \<Rightarrow> trace w | Fault w \<Rightarrow> trace w
      | Running w \<Rightarrow> trace w)"

text \<open>The ways a run can end: a handshake timeout, another fatal error, a clean exit.\<close>

definition handshake_timeout :: "'a result \<Rightarrow> bool" where
  "handshake_timeout r =
     (case r of
        Exit status w \<Rightarrow>
          status = 2 \<and> diagnostic w \<in> {Some second_bit_message, Some first_bit_message}
      | _ \<Rightarrow> False)"

text \<open>The messages libpci can make the program die with on the machine \<open>e\<close>.\<close>

definition libpci_messages :: "env \<Rightarrow> string option set" where
  "libpci_messages e =
     (case pci_init_error e of None \<Rightarrow> {} | Some (msg, args) \<Rightarrow> {Some msg}) \<union>
     (case pci_scan_error e of None \<Rightarrow> {} | Some (msg, args) \<Rightarrow> {Some msg})"

definition generic_fatal :: "env \<Rightarrow> 'a result \<Rightarrow> bool" where
  "generic_fatal e r =
     (case r of
        Exit status w \<Rightarrow>
          status = 1 \<and>
          diagnostic w \<in> {Some permission_message, Some multiple_devices_message,
                           Some no_device_message, Some invalid_speed_message}
                          \<union> libpci_messages e
      | _ \<Rightarrow> False)"

definition clean_exit :: "'a result \<Rightarrow> bool" where
  "clean_exit r = (case r of Exit status w \<Rightarrow> status = 0 \<and> diagnostic w = None | _ \<Rightarrow> False)"

definition returned :: "'a result \<Rightarrow> bool" where
  "returned r = (case r of Ok x w \<Rightarrow> True | _ \<Rightarrow> False)"

definition still_running :: "'a result \<Rightarrow> bool" where
  "still_running r = (case r of Running w \<Rightarrow> True | _ \<Rightarrow> False)"

text \<open>
  What a function of the program may do (\<open>proper\<close>: return or die in one of the two
  ways) and how a run of \<^verbatim>\<open>main\<close> may stand (\<open>proper_end\<close>). Neither includes the fault.
\<close>

definition proper :: "env \<Rightarrow> 'a result \<Rightarrow> bool" where
  "proper e r = (returned r \<or> generic_fatal e r \<or> handshake_timeout r)"

definition proper_end :: "env \<Rightarrow> 'a result \<Rightarrow> bool" where
  "proper_end e r =
     (generic_fatal e r \<or> handshake_timeout r \<or> clean_exit r \<or> still_running r)"

text \<open>A run that ended through \<^verbatim>\<open>exit(status)\<close> after dying with the message \<open>msg\<close>.\<close>

definition died :: "int \<Rightarrow> string \<Rightarrow> 'a result \<Rightarrow> bool" where
  "died status msg r =
     (case r of Exit status' w \<Rightarrow> status' = status \<and> diagnostic w = Some msg | _ \<Rightarrow> False)"

text \<open>
  What a machine is like: the devices \<^verbatim>\<open>initialize_pci\<close> matches, whether libpci works,
  whether the three calls of \<^verbatim>\<open>ioperm\<close> succeed. And the command lines on which \<^verbatim>\<open>main\<close>
  calls \<^verbatim>\<open>initialize\<close>.
\<close>

definition matching_devices :: "env \<Rightarrow> (nat \<times> nat) list" where
  "matching_devices e =
     filter (\<lambda>(vendor_id, device_id). vendor_id = 0x8086 \<and> device_id = 0x9cc3) (pci_devices e)"

definition pci_ok :: "env \<Rightarrow> bool" where
  "pci_ok e = (pci_init_error e = None \<and> pci_scan_error e = None)"

definition permissions_granted :: "env \<Rightarrow> bool" where
  "permissions_granted e =
     (ioperm_ret e 0x4E 2 = 0 \<and> ioperm_ret e 0x68 1 = 0 \<and> ioperm_ret e 0x6C 1 = 0)"

definition runs_initialize :: "string list \<Rightarrow> bool" where
  "runs_initialize argv =
     ((length argv = 2 \<and> argv ! 1 = ''temp'') \<or>
      (length argv = 3 \<and> argv ! 1 = ''set-fan-speed'') \<or>
      (length argv = 2 \<and> argv ! 1 = ''manager''))"

text \<open>
  Decimal integers as they are typed on a command line. \<open>decimal n\<close> is the numeral of a
  natural number without leading zeros; \<open>integer_numeral sign zeros n\<close> is the sign
  (nothing, \<^verbatim>\<open>+\<close> or \<^verbatim>\<open>-\<close>), then \<open>zeros\<close> leading zeros, then \<open>decimal n\<close>, and
  \<open>integer_value sign n\<close> is the integer it denotes: the argument \<^verbatim>\<open>-007\<close> is
  \<open>integer_numeral ''-'' 2 7\<close> and denotes \<open>- 7\<close>. \<open>decimal_integer a\<close> says that the string
  \<open>a\<close> is an optional sign followed by at least one digit and nothing else.
\<close>

definition digit_char :: "nat \<Rightarrow> char" where
  "digit_char d = char_of (48 + d)"

fun decimal :: "nat \<Rightarrow> string" where
  "decimal n =
     (if n < 10 then [digit_char n] else decimal (n div 10) @ [digit_char (n mod 10)])"

definition integer_numeral :: "string \<Rightarrow> nat \<Rightarrow> nat \<Rightarrow> string" where
  "integer_numeral sign zeros n = sign @ replicate zeros (CHR ''0'') @ decimal n"

definition integer_value :: "string \<Rightarrow> nat \<Rightarrow> int" where
  "integer_value sign n = (if sign = ''-'' then - int n else int n)"

definition decimal_integer :: "string \<Rightarrow> bool" where
  "decimal_integer a =
     (case a of
        [] \<Rightarrow> False
      | c # cs \<Rightarrow>
          if c = CHR ''-'' \<or> c = CHR ''+'' then cs \<noteq> [] \<and> list_all isdigit cs
          else list_all isdigit a)"

text \<open>
  Machines to run the program on. On \<open>e_ok\<close> libpci works, the device is there, every
  permission is granted and the status port always reads 1 (second bit clear, first bit
  set). The others differ from it in one respect each: on \<open>e_stuck\<close> the status port always
  reads 2 (second bit set, first bit clear), on \<open>e_silent\<close> it always reads 0 (both bits
  clear), on \<open>e_nodev\<close> no PCI device matches, on \<open>e_twodev\<close> two do, on \<open>e_noperm\<close> the
  second call of \<^verbatim>\<open>ioperm\<close> fails, on \<open>e_nopci\<close> \<^verbatim>\<open>pci_init\<close> fails.
\<close>

definition e_ok :: env where
  "e_ok = \<lparr>inb_val = (\<lambda>k port. 1), ioperm_ret = (\<lambda>from num. 0), strerror_errno = [],
           pci_devices = [(0x8086, 0x9cc3)], pci_init_error = None, pci_scan_error = None\<rparr>"

definition e_stuck :: env where
  "e_stuck = e_ok\<lparr>inb_val := (\<lambda>k port. 2)\<rparr>"

definition e_silent :: env where
  "e_silent = e_ok\<lparr>inb_val := (\<lambda>k port. 0)\<rparr>"

definition e_nodev :: env where
  "e_nodev = e_ok\<lparr>pci_devices := [(0x8086, 0x1c3a)]\<rparr>"

definition e_twodev :: env where
  "e_twodev = e_ok\<lparr>pci_devices := [(0x8086, 0x9cc3), (0x8086, 0x1c3a), (0x8086, 0x9cc3)]\<rparr>"

definition e_noperm :: env where
  "e_noperm =
     e_ok\<lparr>ioperm_ret := (\<lambda>from num. if from = 0x68 then - 1 else 0),
          strerror_errno := ''Operation not permitted''\<rparr>"

definition e_nopci :: env where
  "e_nopci = e_ok\<lparr>pci_init_error := Some (''Cannot find any working access method.'', [])\<rparr>"

section \<open>Properties of the decision\<close>

lemma level_at_in_range:
  "0 \<le> i \<Longrightarrow> i < int (length levels) \<Longrightarrow> level_at levels i = Some (levels ! nat i)"
  by (simp add: level_at_def)

lemma next_level_in_range:
  assumes "0 \<le> level" "level < num_levels" "num_levels \<le> int (length levels)"
  shows "next_level num_levels levels level temp =
           Some (if temp < leave (levels ! nat level) \<and> level > 0 then level - 1
                 else if level < num_levels - 1 \<and> temp > enter (levels ! nat (level + 1))
                      then level + 1
                 else level)"
proof -
  have cur: "level_at levels level = Some (levels ! nat level)"
    using assms by (simp add: level_at_in_range)
  show ?thesis
  proof (cases "level < num_levels - 1")
    case True
    then have "level_at levels (level + 1) = Some (levels ! nat (level + 1))"
      using assms by (simp add: level_at_in_range)
    with cur True show ?thesis by (simp add: next_level_def)
  next
    case False
    with cur show ?thesis by (simp add: next_level_def)
  qed
qed

text \<open>
  C1 (as amended). With the default table and starting at level 0, the samples
  30, 42, 60, 72, 50, 44, 39 give the levels 0, 0, 1, 2, 2, 1, 0: level 1 is entered only
  above \<open>levels[1].enter = 55\<close>, so 42 leaves the level at 0, and 50 is not below
  \<open>levels[2].leave = 45\<close>, so the level stays at 2.
\<close>

theorem default_sequence_levels:
  "run_levels num_default_levels default_levels 0 [30, 42, 60, 72, 50, 44, 39]
     = Some [0, 0, 1, 2, 2, 1, 0]"
  by (simp add: num_default_levels_def default_levels_def mk_level_def next_level_def
      level_at_def)

text \<open>
  C1, as the specification states it, fails: the level sequence is not 0, 1, 2, 3, 2, 1, 0.
\<close>

theorem default_sequence_counterexample:
  "run_levels num_default_levels default_levels 0 [30, 42, 60, 72, 50, 44, 39]
     \<noteq> Some [0, 1, 2, 3, 2, 1, 0]"
  by (simp add: num_default_levels_def default_levels_def mk_level_def next_level_def
      level_at_def)

text \<open>
  C2. On a ladder of \<open>N\<close> levels and a level index inside it, the decision of the code is
  the rule of the specification, evaluated in its order: down one level first, else up one
  level, else stay.
\<close>

theorem next_level_refines_spec:
  assumes "0 \<le> i" "i < int (length ladder)"
  shows "next_level (int (length ladder)) ladder i t = Some (spec_decide ladder i t)"
  using next_level_in_range [of i "int (length ladder)" ladder t] assms
  by (auto simp add: spec_decide_def)

theorem next_level_refines_spec_witness:
  "(0::int) \<le> 2 \<and> 2 < int (length default_levels) \<and>
   next_level (int (length default_levels)) default_levels 2 44 = Some 1 \<and>
   spec_decide default_levels 2 44 = 1"
  using next_level_refines_spec [of 2 default_levels 44]
  by (simp add: default_levels_def mk_level_def spec_decide_def)

text \<open>
  C3. For a ladder of \<open>num_levels\<close> levels and a level index inside it, one decision
  returns, and returns the old index, the old index minus one or the old index plus one.
\<close>

theorem next_level_single_step:
  assumes "0 \<le> level" "level < num_levels" "num_levels \<le> int (length levels)"
  shows "\<exists>level'. next_level num_levels levels level temp = Some level' \<and>
           (level' = level - 1 \<or> level' = level \<or> level' = level + 1)"
  using next_level_in_range [OF assms, of temp] by simp

theorem next_level_single_step_witness:
  "(0::int) \<le> 3 \<and> 3 < num_default_levels \<and> num_default_levels \<le> int (length default_levels) \<and>
   (\<exists>level'. next_level num_default_levels default_levels 3 10 = Some level' \<and>
      (level' = 3 - 1 \<or> level' = 3 \<or> level' = 3 + 1))"
  using next_level_single_step [of 3 num_default_levels default_levels 10]
  by (simp add: num_default_levels_def default_levels_def)

text \<open>
  C4. At a level \<open>i\<close> that has a next level, a temperature \<open>t\<close> with
  \<open>levels[i].leave \<le> t \<le> levels[i+1].enter\<close> leaves the level at \<open>i\<close>; both bounds
  included.
\<close>

theorem overlap_band_fixed_point:
  assumes "0 \<le> i" "i + 1 < num_levels" "num_levels \<le> int (length levels)"
    and "leave (levels ! nat i) \<le> t" "t \<le> enter (levels ! nat (i + 1))"
  shows "next_level num_levels levels i t = Some i"
proof -
  have "i < num_levels" using assms(2) by simp
  from next_level_in_range [OF assms(1) this assms(3), of t] assms(4,5)
  show ?thesis by (simp add: not_less [symmetric])
qed

theorem overlap_band_fixed_point_witness:
  "(0::int) \<le> 1 \<and> 1 + 1 < num_default_levels \<and>
   num_default_levels \<le> int (length default_levels) \<and>
   leave (default_levels ! nat 1) \<le> 40 \<and> 40 \<le> enter (default_levels ! nat (1 + 1)) \<and>
   leave (default_levels ! nat 1) \<le> 65 \<and> 65 \<le> enter (default_levels ! nat (1 + 1)) \<and>
   next_level num_default_levels default_levels 1 40 = Some 1 \<and>
   next_level num_default_levels default_levels 1 65 = Some 1"
  using overlap_band_fixed_point [of 1 num_default_levels default_levels 40]
    overlap_band_fixed_point [of 1 num_default_levels default_levels 65]
  by (simp add: num_default_levels_def default_levels_def mk_level_def)

section \<open>The handshake\<close>

declare second_bit_loop.simps [simp del] first_bit_loop.simps [simp del]

lemmas machine_defs =
  e_ok_def e_stuck_def e_silent_def e_nodev_def e_twodev_def e_noperm_def e_nopci_def

lemma port_traffic_append [simp]:
  "port_traffic (xs @ ys) = port_traffic xs @ port_traffic ys"
  by (induction xs rule: port_traffic.induct) simp_all

lemma sleeps_append [simp]: "sleeps (xs @ ys) = sleeps xs @ sleeps ys"
  by (induction xs rule: sleeps.induct) simp_all

lemma inbs_append [simp]: "inbs (xs @ ys) = inbs xs @ inbs ys"
  by (induction xs rule: inbs.induct) simp_all

lemma trace_emit [simp]: "trace (emit ev w) = trace w @ [ev]"
  by (simp add: emit_def)

lemma reads_emit [simp]: "reads (emit ev w) = reads w"
  by (simp add: emit_def)

lemma bind_Ok: "m w = Ok x w' \<Longrightarrow> bind m f w = f x w'"
  by (simp add: bind_def)

lemma bind_eq_Ok:
  "bind m f w = Ok y w'' \<longleftrightarrow> (\<exists>x w'. m w = Ok x w' \<and> f x w' = Ok y w'')"
  by (simp add: bind_def split: result.splits)

lemma handshake_timeout_simps [simp]:
  "\<not> handshake_timeout (Ok x w)" "\<not> handshake_timeout (Fault w)"
  "\<not> handshake_timeout (Running w)"
  by (simp_all add: handshake_timeout_def)

lemma generic_fatal_simps [simp]:
  "\<not> generic_fatal e (Ok x w)" "\<not> generic_fatal e (Fault w)"
  "\<not> generic_fatal e (Running w)"
  by (simp_all add: generic_fatal_def)

lemma handshake_timeout_die_status:
  "msg = second_bit_message \<or> msg = first_bit_message \<Longrightarrow>
     handshake_timeout (die_status 2 msg args w)"
  by (auto simp add: handshake_timeout_def die_status_def vdie_status_def diagnostic_def)

lemma handshake_timeout_bind:
  "handshake_timeout (m w) \<Longrightarrow> handshake_timeout (bind m f w)"
  by (cases "m w") (simp_all add: handshake_timeout_def bind_def)

text \<open>Both wait loops return, and add nothing but sleeps and polls of the status port.\<close>

lemma second_bit_loop_returns:
  "\<exists>b w'. second_bit_loop e counter is_set w = Ok b w' \<and>
      port_traffic (trace w') = port_traffic (trace w)"
proof (induction e counter is_set w rule: second_bit_loop.induct)
  case (1 e counter is_set w)
  show ?case
  proof (cases "counter \<le> 1000 \<and> is_set")
    case True
    define w1 where "w1 = emit (Usleep 1000) w"
    define val where "val = inb_val e (reads w1) 0x6C"
    define w2 where "w2 = emit (Inb 0x6C val) (w1\<lparr>reads := Suc (reads w1)\<rparr>)"
    have u: "usleep 1000 w = Ok () w1" by (simp add: usleep_def w1_def)
    have i: "inb e 0x6C w1 = Ok val w2" by (simp add: inb_def val_def w2_def Let_def)
    from "1.IH" [OF True]
    obtain b w' where r: "second_bit_loop e (counter + 1) (val AND 2 = 2) w2 = Ok b w'"
      and o: "port_traffic (trace w') = port_traffic (trace w2)" by blast
    have "second_bit_loop e counter is_set w = Ok b w'"
      using True u i r by (subst second_bit_loop.simps) (simp add: bind_Ok)
    moreover have "port_traffic (trace w2) = port_traffic (trace w)"
      by (simp add: w2_def w1_def)
    ultimately show ?thesis using o by simp
  next
    case False
    then show ?thesis by (subst second_bit_loop.simps) auto
  qed
qed

lemma first_bit_loop_returns:
  "\<exists>b w'. first_bit_loop e counter unset w = Ok b w' \<and>
      port_traffic (trace w') = port_traffic (trace w)"
proof (induction e counter unset w rule: first_bit_loop.induct)
  case (1 e counter unset w)
  show ?case
  proof (cases "counter \<le> 1000 \<and> unset")
    case True
    define w1 where "w1 = emit (Usleep 1000) w"
    define val where "val = inb_val e (reads w1) 0x6C"
    define w2 where "w2 = emit (Inb 0x6C val) (w1\<lparr>reads := Suc (reads w1)\<rparr>)"
    have u: "usleep 1000 w = Ok () w1" by (simp add: usleep_def w1_def)
    have i: "inb e 0x6C w1 = Ok val w2" by (simp add: inb_def val_def w2_def Let_def)
    from "1.IH" [OF True]
    obtain b w' where r: "first_bit_loop e (counter + 1) (val AND 1 = 0) w2 = Ok b w'"
      and o: "port_traffic (trace w') = port_traffic (trace w2)" by blast
    have "first_bit_loop e counter unset w = Ok b w'"
      using True u i r by (subst first_bit_loop.simps) (simp add: bind_Ok)
    moreover have "port_traffic (trace w2) = port_traffic (trace w)"
      by (simp add: w2_def w1_def)
    ultimately show ?thesis using o by simp
  next
    case False
    then show ?thesis by (subst first_bit_loop.simps) auto
  qed
qed

lemma wait_second_cases:
  "(\<exists>w'. wait_0x6C_second_bit_unset e w = Ok () w' \<and>
        port_traffic (trace w') = port_traffic (trace w))
   \<or> handshake_timeout (wait_0x6C_second_bit_unset e w)"
proof -
  define val where "val = inb_val e (reads w) 0x6C"
  define w1 where "w1 = emit (Inb 0x6C val) (w\<lparr>reads := Suc (reads w)\<rparr>)"
  have i: "inb e 0x6C w = Ok val w1" by (simp add: inb_def val_def w1_def Let_def)
  obtain b w2 where l: "second_bit_loop e 0 (val AND 2 = 2) w1 = Ok b w2"
    and o: "port_traffic (trace w2) = port_traffic (trace w1)"
    using second_bit_loop_returns by blast
  have o1: "port_traffic (trace w1) = port_traffic (trace w)" by (simp add: w1_def)
  show ?thesis
  proof (cases b)
    case True
    then have "wait_0x6C_second_bit_unset e w = die_status 2 second_bit_message [] w2"
      using i l by (simp add: wait_0x6C_second_bit_unset_def bind_Ok second_bit_message_def)
    then show ?thesis by (simp add: handshake_timeout_die_status)
  next
    case False
    then have "wait_0x6C_second_bit_unset e w = Ok () w2"
      using i l by (simp add: wait_0x6C_second_bit_unset_def bind_Ok return_def)
    then show ?thesis using o o1 by simp
  qed
qed

lemma wait_first_cases:
  "(\<exists>w'. wait_0x6C_first_bit_set e w = Ok () w' \<and>
        port_traffic (trace w') = port_traffic (trace w))
   \<or> handshake_timeout (wait_0x6C_first_bit_set e w)"
proof -
  define val where "val = inb_val e (reads w) 0x6C"
  define w1 where "w1 = emit (Inb 0x6C val) (w\<lparr>reads := Suc (reads w)\<rparr>)"
  have i: "inb e 0x6C w = Ok val w1" by (simp add: inb_def val_def w1_def Let_def)
  obtain b w2 where l: "first_bit_loop e 0 (val AND 1 = 0) w1 = Ok b w2"
    and o: "port_traffic (trace w2) = port_traffic (trace w1)"
    using first_bit_loop_returns by blast
  have o1: "port_traffic (trace w1) = port_traffic (trace w)" by (simp add: w1_def)
  show ?thesis
  proof (cases b)
    case True
    then have "wait_0x6C_first_bit_set e w = die_status 2 first_bit_message [] w2"
      using i l by (simp add: wait_0x6C_first_bit_set_def bind_Ok first_bit_message_def)
    then show ?thesis by (simp add: handshake_timeout_die_status)
  next
    case False
    then have "wait_0x6C_first_bit_set e w = Ok () w2"
      using i l by (simp add: wait_0x6C_first_bit_set_def bind_Ok return_def)
    then show ?thesis using o o1 by simp
  qed
qed

lemma set_0x6C_cases:
  "(\<exists>w'. set_0x6C e val w = Ok () w' \<and>
        port_traffic (trace w') = port_traffic (trace w) @ [Outb val 0x6C])
   \<or> handshake_timeout (set_0x6C e val w)"
proof -
  consider w1 where "wait_0x6C_second_bit_unset e w = Ok () w1"
      "port_traffic (trace w1) = port_traffic (trace w)"
    | "handshake_timeout (wait_0x6C_second_bit_unset e w)"
    using wait_second_cases by blast
  then show ?thesis
  proof cases
    case 1
    define w2 where "w2 = emit (Outb val 0x6C) w1"
    have s: "set_0x6C e val w = wait_0x6C_second_bit_unset e w2"
      using 1 by (simp add: set_0x6C_def bind_Ok outb_def w2_def)
    have o2: "port_traffic (trace w2) = port_traffic (trace w) @ [Outb val 0x6C]"
      using 1 by (simp add: w2_def)
    show ?thesis
      using wait_second_cases [of e w2] s o2 by auto
  next
    case 2
    then show ?thesis by (simp add: set_0x6C_def handshake_timeout_bind)
  qed
qed

lemma read_temperature_cases:
  "(\<exists>temp w'. read_temperature e w = Ok temp w' \<and>
        port_traffic (trace w') =
          port_traffic (trace w) @ [Outb 0x44 0x6C, Outb 0x00 0x68, Inb 0x68 temp])
   \<or> handshake_timeout (read_temperature e w)"
proof -
  consider w1 where "set_0x6C e 0x44 w = Ok () w1"
      "port_traffic (trace w1) = port_traffic (trace w) @ [Outb 0x44 0x6C]"
    | "handshake_timeout (set_0x6C e 0x44 w)"
    using set_0x6C_cases by blast
  then show ?thesis
  proof cases
    case 1
    define w2 where "w2 = emit (Outb 0x00 0x68) w1"
    have s: "read_temperature e w = bind (wait_0x6C_first_bit_set e) (\<lambda>_. inb e 0x68) w2"
      using 1 by (simp add: read_temperature_def bind_Ok outb_def w2_def)
    have o2: "port_traffic (trace w2) = port_traffic (trace w) @ [Outb 0x44 0x6C, Outb 0x00 0x68]"
      using 1 by (simp add: w2_def)
    consider w3 where "wait_0x6C_first_bit_set e w2 = Ok () w3"
        "port_traffic (trace w3) = port_traffic (trace w2)"
      | "handshake_timeout (wait_0x6C_first_bit_set e w2)"
      using wait_first_cases by blast
    then show ?thesis
    proof cases
      case 1
      then show ?thesis using s o2 by (simp add: bind_Ok inb_def Let_def)
    next
      case 2
      then show ?thesis using s by (simp add: handshake_timeout_bind)
    qed
  next
    case 2
    then show ?thesis by (simp add: read_temperature_def handshake_timeout_bind)
  qed
qed

lemma set_fan_speed_cases:
  "(\<exists>w'. set_fan_speed e speed w = Ok () w' \<and>
        port_traffic (trace w') = port_traffic (trace w) @ [Outb 0x55 0x6C, Outb speed 0x68])
   \<or> handshake_timeout (set_fan_speed e speed w)"
proof -
  consider w1 where "set_0x6C e 0x55 w = Ok () w1"
      "port_traffic (trace w1) = port_traffic (trace w) @ [Outb 0x55 0x6C]"
    | "handshake_timeout (set_0x6C e 0x55 w)"
    using set_0x6C_cases by blast
  then show ?thesis
  proof cases
    case 1
    then show ?thesis by (simp add: set_fan_speed_def bind_Ok outb_def)
  next
    case 2
    then show ?thesis by (simp add: set_fan_speed_def handshake_timeout_bind)
  qed
qed

text \<open>
  A wait whose bit never changes: the loop runs for \<open>counter = 0, \<dots>, 1000\<close>, which is 1001
  passes, each with one sleep and one read.
\<close>

lemma second_bit_loop_stuck:
  assumes "\<forall>k. inb_val e k 0x6C AND 2 = 2"
  shows "n = nat (1001 - counter) \<Longrightarrow> 0 \<le> counter \<Longrightarrow> counter \<le> 1001 \<Longrightarrow>
     \<exists>w'. second_bit_loop e counter True w = Ok True w' \<and>
        sleeps (trace w') = sleeps (trace w) @ replicate n 1000 \<and>
        inbs (trace w') = inbs (trace w) @ replicate n 0x6C"
proof (induction n arbitrary: counter w)
  case 0
  then have "counter = 1001" by simp
  then show ?case by (subst second_bit_loop.simps) simp
next
  case (Suc n)
  then have c: "counter \<le> 1000" by simp
  define w1 where "w1 = emit (Usleep 1000) w"
  define val where "val = inb_val e (reads w1) 0x6C"
  define w2 where "w2 = emit (Inb 0x6C val) (w1\<lparr>reads := Suc (reads w1)\<rparr>)"
  have v: "(val AND 2 = 2) = True" using assms by (simp add: val_def)
  have u: "usleep 1000 w = Ok () w1" by (simp add: usleep_def w1_def)
  have i: "inb e 0x6C w1 = Ok val w2" by (simp add: inb_def val_def w2_def Let_def)
  have "n = nat (1001 - (counter + 1))" "0 \<le> counter + 1" "counter + 1 \<le> 1001"
    using Suc.prems by simp_all
  from Suc.IH [OF this, of w2] obtain w' where
    r: "second_bit_loop e (counter + 1) True w2 = Ok True w'"
    and s: "sleeps (trace w') = sleeps (trace w2) @ replicate n 1000"
    and p: "inbs (trace w') = inbs (trace w2) @ replicate n 0x6C" by blast
  have "second_bit_loop e counter True w = Ok True w'"
    using c u i r v by (subst second_bit_loop.simps) (simp add: bind_Ok)
  moreover have "sleeps (trace w2) = sleeps (trace w) @ [1000]"
    "inbs (trace w2) = inbs (trace w) @ [0x6C]"
    by (simp_all add: w2_def w1_def)
  ultimately show ?case using s p by (simp add: replicate_append_same)
qed

lemma first_bit_loop_stuck:
  assumes "\<forall>k. inb_val e k 0x6C AND 1 = 0"
  shows "n = nat (1001 - counter) \<Longrightarrow> 0 \<le> counter \<Longrightarrow> counter \<le> 1001 \<Longrightarrow>
     \<exists>w'. first_bit_loop e counter True w = Ok True w' \<and>
        sleeps (trace w') = sleeps (trace w) @ replicate n 1000 \<and>
        inbs (trace w') = inbs (trace w) @ replicate n 0x6C"
proof (induction n arbitrary: counter w)
  case 0
  then have "counter = 1001" by simp
  then show ?case by (subst first_bit_loop.simps) simp
next
  case (Suc n)
  then have c: "counter \<le> 1000" by simp
  define w1 where "w1 = emit (Usleep 1000) w"
  define val where "val = inb_val e (reads w1) 0x6C"
  define w2 where "w2 = emit (Inb 0x6C val) (w1\<lparr>reads := Suc (reads w1)\<rparr>)"
  have v: "(val AND 1 = 0) = True" using assms by (simp add: val_def)
  have u: "usleep 1000 w = Ok () w1" by (simp add: usleep_def w1_def)
  have i: "inb e 0x6C w1 = Ok val w2" by (simp add: inb_def val_def w2_def Let_def)
  have "n = nat (1001 - (counter + 1))" "0 \<le> counter + 1" "counter + 1 \<le> 1001"
    using Suc.prems by simp_all
  from Suc.IH [OF this, of w2] obtain w' where
    r: "first_bit_loop e (counter + 1) True w2 = Ok True w'"
    and s: "sleeps (trace w') = sleeps (trace w2) @ replicate n 1000"
    and p: "inbs (trace w') = inbs (trace w2) @ replicate n 0x6C" by blast
  have "first_bit_loop e counter True w = Ok True w'"
    using c u i r v by (subst first_bit_loop.simps) (simp add: bind_Ok)
  moreover have "sleeps (trace w2) = sleeps (trace w) @ [1000]"
    "inbs (trace w2) = inbs (trace w) @ [0x6C]"
    by (simp_all add: w2_def w1_def)
  ultimately show ?case using s p by (simp add: replicate_append_same)
qed

lemma replicate_1002: "replicate 1002 x = x # replicate 1001 x"
proof -
  have "(1002::nat) = Suc 1001" by simp
  then show ?thesis by (simp only: replicate_Suc)
qed

lemma wait_second_stuck:
  assumes "\<forall>k. inb_val e k 0x6C AND 2 = 2"
  shows "\<exists>w'. wait_0x6C_second_bit_unset e w = Exit 2 w' \<and>
           diagnostic w' = Some second_bit_message \<and>
           sleeps (trace w') = sleeps (trace w) @ replicate 1001 1000 \<and>
           inbs (trace w') = inbs (trace w) @ replicate 1002 0x6C"
proof -
  define val where "val = inb_val e (reads w) 0x6C"
  define w1 where "w1 = emit (Inb 0x6C val) (w\<lparr>reads := Suc (reads w)\<rparr>)"
  have v: "(val AND 2 = 2) = True" using assms by (simp add: val_def)
  have i: "inb e 0x6C w = Ok val w1" by (simp add: inb_def val_def w1_def Let_def)
  from second_bit_loop_stuck [OF assms, of 1001 0 w1] obtain w2 where
    r: "second_bit_loop e 0 True w1 = Ok True w2"
    and s: "sleeps (trace w2) = sleeps (trace w1) @ replicate 1001 1000"
    and p: "inbs (trace w2) = inbs (trace w1) @ replicate 1001 0x6C" by auto
  have "wait_0x6C_second_bit_unset e w = die_status 2 second_bit_message [] w2"
    using i r v by (simp add: wait_0x6C_second_bit_unset_def bind_Ok second_bit_message_def)
  moreover have "sleeps (trace w1) = sleeps (trace w)" "inbs (trace w1) = inbs (trace w) @ [0x6C]"
    by (simp_all add: w1_def)
  ultimately show ?thesis using s p
    by (simp add: die_status_def vdie_status_def diagnostic_def replicate_1002)
qed

lemma wait_first_stuck:
  assumes "\<forall>k. inb_val e k 0x6C AND 1 = 0"
  shows "\<exists>w'. wait_0x6C_first_bit_set e w = Exit 2 w' \<and>
           diagnostic w' = Some first_bit_message \<and>
           sleeps (trace w') = sleeps (trace w) @ replicate 1001 1000 \<and>
           inbs (trace w') = inbs (trace w) @ replicate 1002 0x6C"
proof -
  define val where "val = inb_val e (reads w) 0x6C"
  define w1 where "w1 = emit (Inb 0x6C val) (w\<lparr>reads := Suc (reads w)\<rparr>)"
  have v: "(val AND 1 = 0) = True" using assms by (simp add: val_def)
  have i: "inb e 0x6C w = Ok val w1" by (simp add: inb_def val_def w1_def Let_def)
  from first_bit_loop_stuck [OF assms, of 1001 0 w1] obtain w2 where
    r: "first_bit_loop e 0 True w1 = Ok True w2"
    and s: "sleeps (trace w2) = sleeps (trace w1) @ replicate 1001 1000"
    and p: "inbs (trace w2) = inbs (trace w1) @ replicate 1001 0x6C" by auto
  have "wait_0x6C_first_bit_set e w = die_status 2 first_bit_message [] w2"
    using i r v by (simp add: wait_0x6C_first_bit_set_def bind_Ok first_bit_message_def)
  moreover have "sleeps (trace w1) = sleeps (trace w)" "inbs (trace w1) = inbs (trace w) @ [0x6C]"
    by (simp_all add: w1_def)
  ultimately show ?thesis using s p
    by (simp add: die_status_def vdie_status_def diagnostic_def replicate_1002)
qed

text \<open>
  C6. On a status port that always reads 2 neither wait sees its bit change. Each then
  ends the process with status 2 and its own message, after the first read and 1001 passes
  of its loop: 1001 sleeps of 1000 microseconds and 1002 reads of port \<^verbatim>\<open>0x6C\<close> in all,
  not 1000, because the loop runs while \<^verbatim>\<open>counter <= 1000\<close> with the counter starting at 0.
\<close>

theorem stuck_wait_polls_1001_times:
  "exit_status (wait_0x6C_second_bit_unset e_stuck initial_world) = Some 2 \<and>
   sleeps (final_trace (wait_0x6C_second_bit_unset e_stuck initial_world)) = replicate 1001 1000 \<and>
   inbs (final_trace (wait_0x6C_second_bit_unset e_stuck initial_world)) = replicate 1002 0x6C \<and>
   exit_status (wait_0x6C_first_bit_set e_stuck initial_world) = Some 2 \<and>
   sleeps (final_trace (wait_0x6C_first_bit_set e_stuck initial_world)) = replicate 1001 1000 \<and>
   inbs (final_trace (wait_0x6C_first_bit_set e_stuck initial_world)) = replicate 1002 0x6C"
proof -
  have s: "\<forall>k. inb_val e_stuck k 0x6C AND 2 = 2" and f: "\<forall>k. inb_val e_stuck k 0x6C AND 1 = 0"
    by (simp_all add: machine_defs)
  have t: "sleeps (trace initial_world) = []" "inbs (trace initial_world) = []"
    by (simp_all add: initial_world_def)
  from wait_second_stuck [OF s, of initial_world] wait_first_stuck [OF f, of initial_world]
  show ?thesis unfolding t by (auto simp add: exit_status_def final_trace_def)
qed

section \<open>The poll loop\<close>

lemmas program_defs =
  bind_def return_def emit_def printf_def outb_def inb_def usleep_def
  vdie_status_def die_status_def die_def get_perm_def get_perms_def
  pci_init_def pci_scan_bus_def initialize_pci_def
  second_bit_loop.simps first_bit_loop.simps
  wait_0x6C_second_bit_unset_def wait_0x6C_first_bit_set_def set_0x6C_def
  unknown_communication_def read_temperature_def set_fan_speed_def initialize_def
  array_read_def level_at_def set_level_and_sleep_def fan_manager_pass_def fan_manager_def
  usage_def main_def initial_world_def mk_level_def default_levels_def num_default_levels_def

lemma next_level_Some_in_range:
  "next_level num_levels levels level temp = Some level' \<Longrightarrow>
     level_at levels level' = Some (levels ! nat level')"
  by (auto simp add: next_level_def level_at_def split: option.splits if_splits)

lemma next_level_stays_in_range:
  assumes "0 \<le> level" "level < num_levels" "num_levels \<le> int (length levels)"
  shows "\<exists>level'. next_level num_levels levels level temp = Some level' \<and>
           0 \<le> level' \<and> level' < num_levels"
  using next_level_in_range [OF assms, of temp] assms by auto

lemma run_levels_in_range:
  assumes "num_levels \<le> int (length levels)"
  shows "0 \<le> level \<Longrightarrow> level < num_levels \<Longrightarrow>
     \<exists>ls. run_levels num_levels levels level temps = Some ls \<and> length ls = length temps \<and>
        list_all (\<lambda>l. 0 \<le> l \<and> l < num_levels) ls"
proof (induction temps arbitrary: level)
  case Nil
  then show ?case by simp
next
  case (Cons temp temps)
  obtain level' where n: "next_level num_levels levels level temp = Some level'"
    and r: "0 \<le> level'" "level' < num_levels"
    using next_level_stays_in_range [OF Cons.prems assms] by blast
  from Cons.IH [OF r] obtain ls where
    "run_levels num_levels levels level' temps = Some ls" "length ls = length temps"
    "list_all (\<lambda>l. 0 \<le> l \<and> l < num_levels) ls" by blast
  then show ?case using n r by simp
qed

text \<open>
  One pass, once the temperature is read: the branches of the source and their prints
  come down to the decision \<open>next_level\<close>, followed by the common end of the pass.
\<close>

lemma pass_after_read:
  assumes "read_temperature e w = Ok temp w1"
  shows "case next_level num_levels levels level temp of
           None \<Rightarrow> \<exists>w2. fan_manager_pass e p num_levels levels level w = Fault w2
         | Some level' \<Rightarrow>
             \<exists>w2. fan_manager_pass e p num_levels levels level w =
                     set_level_and_sleep e p levels level' w2 \<and>
                   port_traffic (trace w2) = port_traffic (trace w1)"
  using assms
  by (auto simp add: fan_manager_pass_def bind_def printf_def array_read_def return_def
      next_level_def level_at_def split: option.splits)

lemma set_level_and_sleep_cases:
  assumes "level_at levels level = Some cur"
  shows "(\<exists>w'. set_level_and_sleep e p levels level w = Ok level w' \<and>
            port_traffic (trace w') =
              port_traffic (trace w) @ [Outb 0x55 0x6C, Outb (fan_speed cur) 0x68])
         \<or> handshake_timeout (set_level_and_sleep e p levels level w)"
proof -
  have r: "array_read levels level w = Ok cur w"
    using assms by (simp add: array_read_def)
  consider w1 where "set_fan_speed e (fan_speed cur) w = Ok () w1"
      "port_traffic (trace w1) =
         port_traffic (trace w) @ [Outb 0x55 0x6C, Outb (fan_speed cur) 0x68]"
    | "handshake_timeout (set_fan_speed e (fan_speed cur) w)"
    using set_fan_speed_cases by blast
  then show ?thesis
  proof cases
    case 1
    then show ?thesis
      using r by (simp add: set_level_and_sleep_def bind_Ok usleep_def return_def)
  next
    case 2
    then show ?thesis
      using r by (simp add: set_level_and_sleep_def bind_Ok handshake_timeout_bind)
  qed
qed

lemma fan_manager_pass_cases:
  "(\<exists>temp w1 level' w'. read_temperature e w = Ok temp w1 \<and>
       next_level num_levels levels level temp = Some level' \<and>
       fan_manager_pass e p num_levels levels level w = Ok level' w' \<and>
       port_traffic (trace w') = port_traffic (trace w) @ pass_traffic levels temp level')
   \<or> (\<exists>temp w1 w2. read_temperature e w = Ok temp w1 \<and>
       next_level num_levels levels level temp = None \<and>
       fan_manager_pass e p num_levels levels level w = Fault w2)
   \<or> handshake_timeout (fan_manager_pass e p num_levels levels level w)"
proof -
  consider temp w1 where "read_temperature e w = Ok temp w1"
      "port_traffic (trace w1) =
         port_traffic (trace w) @ [Outb 0x44 0x6C, Outb 0x00 0x68, Inb 0x68 temp]"
    | "handshake_timeout (read_temperature e w)"
    using read_temperature_cases by blast
  then show ?thesis
  proof cases
    case 1
    note after = pass_after_read [OF 1(1), where num_levels = num_levels and levels = levels
        and level = level and p = p]
    show ?thesis
    proof (cases "next_level num_levels levels level temp")
      case None
      then show ?thesis using after 1(1) by auto
    next
      case (Some level')
      then obtain w2 where p: "fan_manager_pass e p num_levels levels level w =
                     set_level_and_sleep e p levels level' w2"
        and o: "port_traffic (trace w2) = port_traffic (trace w1)"
        using after by auto
      from set_level_and_sleep_cases [OF next_level_Some_in_range [OF Some], of e p w2]
      show ?thesis using p o 1 Some by (auto simp add: pass_traffic_def)
    qed
  next
    case 2
    then show ?thesis by (simp add: fan_manager_pass_def handshake_timeout_bind)
  qed
qed

lemma fan_manager_loop_in_range:
  assumes "num_levels \<le> int (length levels)"
  shows "0 \<le> level \<Longrightarrow> level < num_levels \<Longrightarrow>
     (\<exists>level' w'. fan_manager_loop passes e p num_levels levels level w = Ok level' w' \<and>
         0 \<le> level' \<and> level' < num_levels)
     \<or> handshake_timeout (fan_manager_loop passes e p num_levels levels level w)"
proof (induction passes arbitrary: level w)
  case 0
  then show ?case by simp
next
  case (Suc passes)
  let ?pass = "fan_manager_pass e p num_levels levels level"
  from fan_manager_pass_cases [of e w num_levels levels level p]
  consider temp level1 w1 where "next_level num_levels levels level temp = Some level1"
      "?pass w = Ok level1 w1"
    | temp where "next_level num_levels levels level temp = None"
    | "handshake_timeout (?pass w)"
    by blast
  then show ?case
  proof cases
    case 1
    have "0 \<le> level1 \<and> level1 < num_levels"
      using next_level_stays_in_range [OF Suc.prems assms, of temp] 1(1) by simp
    then show ?thesis
      using Suc.IH [of level1 w1] 1(2) by (simp add: bind_Ok)
  next
    case 2
    then show ?thesis
      using next_level_stays_in_range [OF Suc.prems assms, of temp] by simp
  next
    case 3
    then show ?thesis by (simp add: handshake_timeout_bind)
  qed
qed

text \<open>
  C5. For a ladder of \<open>num_levels \<ge> 1\<close> levels: started at level 0, the decision returns
  on every temperature sequence and every level it passes through is inside
  \<open>0 .. num_levels - 1\<close>; at level 0 it never goes down and at level \<open>num_levels - 1\<close> it
  never goes up; and the loop of \<^verbatim>\<open>fan_manager\<close>, on any machine and for any number of
  passes, has either made all its passes with its index inside the range or died of a
  handshake timeout: it never reads the ladder out of range.
\<close>

theorem level_index_stays_in_range:
  assumes "1 \<le> num_levels" "num_levels \<le> int (length levels)"
  shows "(\<exists>ls. run_levels num_levels levels 0 temps = Some ls \<and> length ls = length temps \<and>
            list_all (\<lambda>l. 0 \<le> l \<and> l < num_levels) ls) \<and>
         (\<exists>l. next_level num_levels levels 0 temp = Some l \<and> 0 \<le> l) \<and>
         (\<exists>l. next_level num_levels levels (num_levels - 1) temp = Some l \<and> l \<le> num_levels - 1) \<and>
         ((\<exists>level' w'. fan_manager passes e p num_levels levels w = Ok level' w' \<and>
              0 \<le> level' \<and> level' < num_levels)
          \<or> handshake_timeout (fan_manager passes e p num_levels levels w))"
proof -
  have z: "(0::int) \<le> 0" "0 < num_levels" using assms by simp_all
  have t: "0 \<le> num_levels - 1" "num_levels - 1 < num_levels" using assms by simp_all
  have "\<exists>l. next_level num_levels levels 0 temp = Some l \<and> 0 \<le> l"
    using next_level_stays_in_range [OF z assms(2), of temp] by blast
  moreover have "\<exists>l. next_level num_levels levels (num_levels - 1) temp = Some l \<and>
      l \<le> num_levels - 1"
    using next_level_stays_in_range [OF t assms(2), of temp] by auto
  ultimately show ?thesis
    using run_levels_in_range [OF assms(2) z, of temps]
      fan_manager_loop_in_range [OF assms(2) z, of passes e p w]
    by (simp add: fan_manager_def)
qed

theorem level_index_stays_in_range_witness:
  "1 \<le> num_default_levels \<and> num_default_levels \<le> int (length default_levels) \<and>
   run_levels num_default_levels default_levels 0 [90, 90, 90, 90, 90, 90, 0, 0, 0, 0, 0, 0]
     = Some [1, 2, 3, 4, 4, 4, 3, 2, 1, 0, 0, 0] \<and>
   (\<exists>ls. run_levels num_default_levels default_levels 0
            [90, 90, 90, 90, 90, 90, 0, 0, 0, 0, 0, 0] = Some ls \<and>
      length ls = length [90, 90, 90, 90, 90, 90, 0, 0, 0, 0, 0, 0 :: byte] \<and>
      list_all (\<lambda>l. 0 \<le> l \<and> l < num_default_levels) ls) \<and>
   (\<exists>l. next_level num_default_levels default_levels 0 0 = Some l \<and> 0 \<le> l) \<and>
   (\<exists>l. next_level num_default_levels default_levels (num_default_levels - 1) 255 = Some l \<and>
      l \<le> num_default_levels - 1) \<and>
   ((\<exists>level' w'. fan_manager 3 e_ok 1000000 num_default_levels default_levels initial_world
        = Ok level' w' \<and> 0 \<le> level' \<and> level' < num_default_levels)
    \<or> handshake_timeout
         (fan_manager 3 e_ok 1000000 num_default_levels default_levels initial_world))"
proof -
  have h: "1 \<le> num_default_levels" "num_default_levels \<le> int (length default_levels)"
    by (simp_all add: num_default_levels_def default_levels_def)
  have "run_levels num_default_levels default_levels 0
          [90, 90, 90, 90, 90, 90, 0, 0, 0, 0, 0, 0] = Some [1, 2, 3, 4, 4, 4, 3, 2, 1, 0, 0, 0]"
    by (simp add: num_default_levels_def default_levels_def mk_level_def next_level_def
        level_at_def)
  then show ?thesis
    using h
      level_index_stays_in_range [OF h, where temps = "[90, 90, 90, 90, 90, 90, 0, 0, 0, 0, 0, 0]"
        and temp = 0 and passes = 3 and e = e_ok and p = 1000000 and w = initial_world]
      level_index_stays_in_range [OF h, where temp = 255]
    by simp
qed

text \<open>
  C9. When the loop of \<^verbatim>\<open>fan_manager\<close> has made a number of passes, the port traffic it
  added is, pass after pass, the temperature request, the temperature read, and the fan
  speed command with the speed of the level the decision gave on that temperature: one
  \<^verbatim>\<open>set_fan_speed\<close> in every pass, also when the level is the one of the pass before.
\<close>

theorem every_pass_sets_fan_speed:
  assumes "fan_manager_loop passes e p num_levels levels level w = Ok level' w'"
  shows "\<exists>temps ls. length temps = passes \<and>
           run_levels num_levels levels level temps = Some ls \<and>
           level' = last (level # ls) \<and>
           port_traffic (trace w') =
             port_traffic (trace w) @ concat (map2 (pass_traffic levels) temps ls)"
  using assms
proof (induction passes arbitrary: level w)
  case 0
  then have "length ([] :: byte list) = 0 \<and> run_levels num_levels levels level [] = Some [] \<and>
      level' = last (level # []) \<and>
      port_traffic (trace w') =
        port_traffic (trace w) @ concat (map2 (pass_traffic levels) [] [])"
    by simp
  then show ?case by blast
next
  case (Suc passes)
  let ?pass = "fan_manager_pass e p num_levels levels level"
  from Suc.prems obtain level1 w1 where
    p: "?pass w = Ok level1 w1"
    and l: "fan_manager_loop passes e p num_levels levels level1 w1 = Ok level' w'"
    by (auto simp add: bind_eq_Ok)
  from fan_manager_pass_cases [of e w num_levels levels level p] p
  obtain temp where n: "next_level num_levels levels level temp = Some level1"
    and o: "port_traffic (trace w1) = port_traffic (trace w) @ pass_traffic levels temp level1"
    by auto
  from Suc.IH [OF l] obtain temps ls where
    t: "length temps = passes" "run_levels num_levels levels level1 temps = Some ls"
      "level' = last (level1 # ls)"
      "port_traffic (trace w') =
         port_traffic (trace w1) @ concat (map2 (pass_traffic levels) temps ls)"
    by blast
  have "length (temp # temps) = Suc passes \<and>
        run_levels num_levels levels level (temp # temps) = Some (level1 # ls) \<and>
        level' = last (level # level1 # ls) \<and>
        port_traffic (trace w') =
          port_traffic (trace w) @
            concat (map2 (pass_traffic levels) (temp # temps) (level1 # ls))"
    using t n o by simp
  then show ?case by blast
qed

theorem every_pass_sets_fan_speed_witness:
  "port_traffic (final_trace
      (fan_manager_loop (Suc (Suc 0)) e_ok 1000000 num_default_levels default_levels 0 initial_world)) =
     [Outb 0x44 0x6C, Outb 0x00 0x68, Inb 0x68 1, Outb 0x55 0x6C, Outb 100 0x68,
      Outb 0x44 0x6C, Outb 0x00 0x68, Inb 0x68 1, Outb 0x55 0x6C, Outb 100 0x68] \<and>
   (\<exists>w'. fan_manager_loop (Suc (Suc 0)) e_ok 1000000 num_default_levels default_levels 0 initial_world
            = Ok 0 w' \<and>
      (\<exists>temps ls. length temps = Suc (Suc 0) \<and>
         run_levels num_default_levels default_levels 0 temps = Some ls \<and>
         0 = last (0 # ls) \<and>
         port_traffic (trace w') =
           port_traffic (trace initial_world) @
             concat (map2 (pass_traffic default_levels) temps ls)))"
proof -
  define r where
    "r = fan_manager_loop (Suc (Suc 0)) e_ok 1000000 num_default_levels default_levels 0 initial_world"
  have "\<exists>w'. r = Ok 0 w' \<and> port_traffic (trace w') =
     [Outb 0x44 0x6C, Outb 0x00 0x68, Inb 0x68 1, Outb 0x55 0x6C, Outb 100 0x68,
      Outb 0x44 0x6C, Outb 0x00 0x68, Inb 0x68 1, Outb 0x55 0x6C, Outb 100 0x68]"
    unfolding r_def by (simp add: program_defs machine_defs)
  then obtain w' where w: "r = Ok 0 w'" and t: "port_traffic (trace w') =
     [Outb 0x44 0x6C, Outb 0x00 0x68, Inb 0x68 1, Outb 0x55 0x6C, Outb 100 0x68,
      Outb 0x44 0x6C, Outb 0x00 0x68, Inb 0x68 1, Outb 0x55 0x6C, Outb 100 0x68]"
    by blast
  from every_pass_sets_fan_speed [OF w [unfolded r_def]] w t
  show ?thesis unfolding r_def [symmetric] by (simp add: final_trace_def)
qed

section \<open>Exit codes\<close>

lemma returned_iff: "returned r \<longleftrightarrow> (\<exists>x w. r = Ok x w)"
  by (cases r) (simp_all add: returned_def)

lemma still_running_iff: "still_running r \<longleftrightarrow> (\<exists>w. r = Running w)"
  by (cases r) (simp_all add: still_running_def)

lemma returned_Ok [simp]: "returned (Ok x w)"
  by (simp add: returned_def)

lemma died_simps [simp]:
  "\<not> died status msg (Ok x w)" "\<not> died status msg (Fault w)"
  "\<not> died status msg (Running w)"
  by (simp_all add: died_def)

lemma died_die [simp]: "died 1 msg (die msg args w)"
  by (simp add: died_def die_def vdie_status_def diagnostic_def)

lemma died_die_status [simp]: "died status msg (die_status status msg args w)"
  by (simp add: died_def die_status_def vdie_status_def diagnostic_def)

lemma died_bind: "died status msg (m w) \<Longrightarrow> died status msg (bind m f w)"
  by (cases "m w") (simp_all add: died_def bind_def)

lemma returned_bind:
  assumes "returned (m w)" "\<And>x w'. m w = Ok x w' \<Longrightarrow> returned (f x w')"
  shows "returned (bind m f w)"
  using assms by (auto simp add: returned_iff bind_def)

lemma returned_basic [simp]:
  "returned (printf fmt args w)" "returned (outb val port w)" "returned (usleep usec w)"
  "returned (inb e port w)" "returned (return x w)"
  by (simp_all add: printf_def outb_def usleep_def inb_def return_def Let_def)

subsection \<open>Every function returns or dies in a known way\<close>

lemma proper_Ok [simp]: "proper e (Ok x w)"
  by (simp add: proper_def)

lemma proper_basic [simp]:
  "proper e (printf fmt args w)" "proper e (outb val port w)" "proper e (usleep usec w)"
  "proper e (inb e' port w)" "proper e (return x w)"
  by (simp_all add: printf_def outb_def usleep_def inb_def return_def Let_def)

lemma proper_die:
  "msg = permission_message \<or> msg = multiple_devices_message \<or> msg = no_device_message \<or>
   msg = invalid_speed_message \<or> Some msg \<in> libpci_messages e \<Longrightarrow> proper e (die msg args w)"
  by (auto simp add: proper_def generic_fatal_def die_def vdie_status_def diagnostic_def)

lemma proper_bind:
  assumes "proper e (m w)" "\<And>x w'. m w = Ok x w' \<Longrightarrow> proper e (f x w')"
  shows "proper e (bind m f w)"
  using assms
  by (cases "m w")
    (auto simp add: proper_def returned_iff bind_def generic_fatal_def handshake_timeout_def)

lemma proper_end_bind:
  assumes "proper e (m w)" "\<And>x w'. m w = Ok x w' \<Longrightarrow> proper_end e (f x w')"
  shows "proper_end e (bind m f w)"
  using assms
  by (cases "m w")
    (auto simp add: proper_def returned_iff proper_end_def still_running_iff bind_def
      generic_fatal_def handshake_timeout_def)

lemma proper_get_perm: "proper e (get_perm e from num w)"
  by (simp add: get_perm_def Let_def proper_die permission_message_def)

lemma proper_get_perms: "proper e (get_perms e w)"
  unfolding get_perms_def
  by (intro proper_bind proper_get_perm proper_basic)

lemma proper_match_device: "proper e (match_device devs idx device w)"
proof (induction devs idx device w rule: match_device.induct)
  case (1 idx device w)
  then show ?case by simp
next
  case (2 vendor_id device_id rest idx device w)
  show ?case
  proof (cases "vendor_id = 0x8086 \<and> device_id = 0x9cc3")
    case True
    show ?thesis
    proof (cases device)
      case None
      then show ?thesis
        using True "2.IH"(1) by (simp add: bind_def printf_def)
    next
      case (Some d)
      then show ?thesis
        using True
        by (simp add: bind_def printf_def proper_die multiple_devices_message_def)
    qed
  next
    case False
    then show ?thesis
      using "2.IH"(2) by (auto simp add: bind_def printf_def)
  qed
qed

lemma proper_pci_init: "proper e (pci_init e w)"
  by (cases "pci_init_error e")
    (auto simp add: pci_init_def return_def libpci_messages_def intro!: proper_die)

lemma proper_pci_scan_bus: "proper e (pci_scan_bus e w)"
  by (cases "pci_scan_error e")
    (auto simp add: pci_scan_bus_def return_def libpci_messages_def intro!: proper_die)

lemma proper_initialize_pci: "proper e (initialize_pci e w)"
  unfolding initialize_pci_def
proof (intro proper_bind proper_basic proper_match_device proper_pci_init proper_pci_scan_bus)
  fix device w'
  show "proper e ((case device of None \<Rightarrow> die ''Could not match any device!'' []
         | Some d \<Rightarrow> bind (printf ''  Setting PCI config\<newline>'' [])
             (\<lambda>_ w. Ok () (emit (Pci_write_long d 0x84 0x40069) w))) w' :: unit result)"
    by (cases device) (simp_all add: proper_die no_device_message_def bind_def printf_def)
qed

lemma proper_set_0x6C: "proper e (set_0x6C e val w)"
  using set_0x6C_cases [of e val w] by (auto simp add: proper_def returned_iff)

lemma proper_read_temperature: "proper e (read_temperature e w)"
  using read_temperature_cases [of e w] by (auto simp add: proper_def returned_iff)

lemma proper_set_fan_speed: "proper e (set_fan_speed e speed w)"
  using set_fan_speed_cases [of e speed w] by (auto simp add: proper_def returned_iff)

lemma proper_unknown_communication: "proper e (unknown_communication e w)"
  unfolding unknown_communication_def
  by (intro proper_bind proper_basic proper_set_0x6C)

lemma proper_initialize: "proper e (initialize e w)"
  unfolding initialize_def
  by (intro proper_bind proper_basic proper_initialize_pci proper_get_perms
      proper_unknown_communication)

lemma diagnostic_emit_other:
  "diagnostic (emit (Stdout fmt args) w) = None"
  "diagnostic (emit (Outb val port) w) = None"
  "diagnostic (emit (Stderr usage_text []) w) = None"
  by (auto simp add: diagnostic_def usage_text_def split: list.splits event.splits)

lemma set_fan_speed_Ok_diagnostic:
  "set_fan_speed e speed w = Ok x w' \<Longrightarrow> diagnostic w' = None"
  by (auto simp add: set_fan_speed_def bind_eq_Ok outb_def diagnostic_emit_other)

lemma proper_end_temp:
  "proper_end e (bind (initialize e) (\<lambda>_.
        bind (read_temperature e) (\<lambda>temp.
        bind (printf ''Current temperature: %d\<newline>'' [I (uint temp)]) (\<lambda>_.
        Exit 0))) w)"
  by (intro proper_end_bind proper_initialize proper_read_temperature proper_basic)
    (auto simp add: proper_end_def still_running_iff clean_exit_def printf_def
      diagnostic_emit_other)

lemma proper_end_speed_body:
  "proper_end e ((if strtol a < 0 \<or> strtol a > 255 then
            die ''Invalid fan speed %s'' [S a]
          else
            bind (printf ''Setting fan speed to %d\<newline>''
                    [I (uint (word_of_int (strtol a) :: byte))]) (\<lambda>_.
            bind (set_fan_speed e (word_of_int (strtol a))) (\<lambda>_.
            Exit 0))) w' :: unit result)"
proof -
  let ?speed = "word_of_int (strtol a) :: byte"
  have "proper_end e (bind (printf ''Setting fan speed to %d\<newline>'' [I (uint ?speed)]) (\<lambda>_.
            bind (set_fan_speed e ?speed) (\<lambda>_. Exit 0)) w' :: unit result)"
    by (intro proper_end_bind proper_basic proper_set_fan_speed)
      (simp add: proper_end_def still_running_iff clean_exit_def set_fan_speed_Ok_diagnostic)
  moreover have "proper_end e (die ''Invalid fan speed %s'' [S a] w' :: unit result)"
    by (simp add: proper_end_def still_running_iff generic_fatal_def die_def vdie_status_def
        diagnostic_def invalid_speed_message_def)
  ultimately show ?thesis by simp
qed

lemma proper_end_set_fan_speed:
  "proper_end e (bind (initialize e) (\<lambda>_.
          if strtol a < 0 \<or> strtol a > 255 then
            die ''Invalid fan speed %s'' [S a]
          else
            bind (printf ''Setting fan speed to %d\<newline>''
                    [I (uint (word_of_int (strtol a) :: byte))]) (\<lambda>_.
            bind (set_fan_speed e (word_of_int (strtol a))) (\<lambda>_.
            Exit 0))) w :: unit result)"
  by (intro proper_end_bind proper_initialize proper_end_speed_body)

lemma proper_fan_manager_default:
  "proper e (fan_manager passes e p num_default_levels default_levels w)"
proof -
  have "num_default_levels \<le> int (length default_levels)" "(0::int) \<le> 0" "0 < num_default_levels"
    by (simp_all add: num_default_levels_def default_levels_def)
  from fan_manager_loop_in_range [OF this, of passes e p w]
  show ?thesis by (auto simp add: fan_manager_def proper_def returned_iff)
qed

lemma proper_end_manager:
  "proper_end e (bind (initialize e) (\<lambda>_.
        bind (fan_manager passes e p num_default_levels default_levels) (\<lambda>_.
        Running)) w)"
  by (intro proper_end_bind proper_initialize proper_fan_manager_default)
    (simp add: proper_end_def still_running_iff)

lemma proper_end_usage: "proper_end e (usage w)"
  by (simp add: proper_end_def still_running_iff clean_exit_def usage_def diagnostic_emit_other)

lemma proper_end_main: "proper_end e (main passes e argv)"
  unfolding main_def Let_def
  by (simp add: proper_end_temp proper_end_set_fan_speed proper_end_manager
      proper_end_usage del: One_nat_def)

subsection \<open>When a wait ends the process\<close>

text \<open>
  The loop of a wait that starts with its counter inside \<open>0 .. 1001\<close> returns a flag that is
  still up exactly when it was up at the start and stays up in every read the loop can
  make: \<open>1001 - counter\<close> of them.
\<close>

lemma second_bit_loop_result:
  "n = nat (1001 - counter) \<Longrightarrow> 0 \<le> counter \<Longrightarrow> counter \<le> 1001 \<Longrightarrow>
     \<exists>w'. second_bit_loop e counter is_set w =
       Ok (is_set \<and> (\<forall>i<n. inb_val e (reads w + i) 0x6C AND 2 = 2)) w'"
proof (induction n arbitrary: counter is_set w)
  case 0
  then have "counter = 1001" by simp
  then show ?case by (subst second_bit_loop.simps) simp
next
  case (Suc n)
  then have c: "counter \<le> 1000" by simp
  show ?case
  proof (cases is_set)
    case False
    then show ?thesis by (subst second_bit_loop.simps) simp
  next
    case True
    define w1 where "w1 = emit (Usleep 1000) w"
    define val where "val = inb_val e (reads w) 0x6C"
    define w2 where "w2 = emit (Inb 0x6C val) (w1\<lparr>reads := Suc (reads w1)\<rparr>)"
    have u: "usleep 1000 w = Ok () w1" by (simp add: usleep_def w1_def)
    have i: "inb e 0x6C w1 = Ok val w2" by (simp add: inb_def val_def w2_def w1_def Let_def)
    have r2: "reads w2 = Suc (reads w)" by (simp add: w2_def w1_def)
    have "n = nat (1001 - (counter + 1))" "0 \<le> counter + 1" "counter + 1 \<le> 1001"
      using Suc.prems by simp_all
    from Suc.IH [OF this, of "val AND 2 = 2" w2] obtain w' where
      "second_bit_loop e (counter + 1) (val AND 2 = 2) w2 =
         Ok (val AND 2 = 2 \<and> (\<forall>i<n. inb_val e (reads w2 + i) 0x6C AND 2 = 2)) w'"
      by blast
    then have "second_bit_loop e counter is_set w =
        Ok (val AND 2 = 2 \<and> (\<forall>i<n. inb_val e (reads w2 + i) 0x6C AND 2 = 2)) w'"
      using True c u i by (subst second_bit_loop.simps) (simp add: bind_Ok)
    moreover have "(val AND 2 = 2 \<and> (\<forall>i<n. inb_val e (reads w2 + i) 0x6C AND 2 = 2)) =
        (is_set \<and> (\<forall>i<Suc n. inb_val e (reads w + i) 0x6C AND 2 = 2))"
      using True by (simp add: All_less_Suc2 r2 val_def)
    ultimately show ?thesis by auto
  qed
qed

lemma first_bit_loop_result:
  "n = nat (1001 - counter) \<Longrightarrow> 0 \<le> counter \<Longrightarrow> counter \<le> 1001 \<Longrightarrow>
     \<exists>w'. first_bit_loop e counter unset w =
       Ok (unset \<and> (\<forall>i<n. inb_val e (reads w + i) 0x6C AND 1 = 0)) w'"
proof (induction n arbitrary: counter unset w)
  case 0
  then have "counter = 1001" by simp
  then show ?case by (subst first_bit_loop.simps) simp
next
  case (Suc n)
  then have c: "counter \<le> 1000" by simp
  show ?case
  proof (cases unset)
    case False
    then show ?thesis by (subst first_bit_loop.simps) simp
  next
    case True
    define w1 where "w1 = emit (Usleep 1000) w"
    define val where "val = inb_val e (reads w) 0x6C"
    define w2 where "w2 = emit (Inb 0x6C val) (w1\<lparr>reads := Suc (reads w1)\<rparr>)"
    have u: "usleep 1000 w = Ok () w1" by (simp add: usleep_def w1_def)
    have i: "inb e 0x6C w1 = Ok val w2" by (simp add: inb_def val_def w2_def w1_def Let_def)
    have r2: "reads w2 = Suc (reads w)" by (simp add: w2_def w1_def)
    have "n = nat (1001 - (counter + 1))" "0 \<le> counter + 1" "counter + 1 \<le> 1001"
      using Suc.prems by simp_all
    from Suc.IH [OF this, of "val AND 1 = 0" w2] obtain w' where
      "first_bit_loop e (counter + 1) (val AND 1 = 0) w2 =
         Ok (val AND 1 = 0 \<and> (\<forall>i<n. inb_val e (reads w2 + i) 0x6C AND 1 = 0)) w'"
      by blast
    then have "first_bit_loop e counter unset w =
        Ok (val AND 1 = 0 \<and> (\<forall>i<n. inb_val e (reads w2 + i) 0x6C AND 1 = 0)) w'"
      using True c u i by (subst first_bit_loop.simps) (simp add: bind_Ok)
    moreover have "(val AND 1 = 0 \<and> (\<forall>i<n. inb_val e (reads w2 + i) 0x6C AND 1 = 0)) =
        (unset \<and> (\<forall>i<Suc n. inb_val e (reads w + i) 0x6C AND 1 = 0))"
      using True by (simp add: All_less_Suc2 r2 val_def)
    ultimately show ?thesis by auto
  qed
qed

lemma less_1002: "(\<forall>i<1002. P i) = (P 0 \<and> (\<forall>i<1001. P (Suc i)))"
proof -
  have "(1002::nat) = Suc 1001" by simp
  then show ?thesis by (simp only: All_less_Suc2)
qed

text \<open>
  A wait ends the process, with status 2 and its message, exactly when its bit is wrong in
  each of the 1002 reads it makes; otherwise it returns.
\<close>

lemma wait_second_exact:
  "if \<forall>i<1002. inb_val e (reads w + i) 0x6C AND 2 = 2
   then died 2 second_bit_message (wait_0x6C_second_bit_unset e w)
   else returned (wait_0x6C_second_bit_unset e w)"
proof -
  define val where "val = inb_val e (reads w) 0x6C"
  define w1 where "w1 = emit (Inb 0x6C val) (w\<lparr>reads := Suc (reads w)\<rparr>)"
  define b where "b = (val AND 2 = 2 \<and> (\<forall>i<1001. inb_val e (reads w1 + i) 0x6C AND 2 = 2))"
  have i: "inb e 0x6C w = Ok val w1" by (simp add: inb_def val_def w1_def Let_def)
  have r1: "reads w1 = Suc (reads w)" by (simp add: w1_def)
  obtain w2 where l: "second_bit_loop e 0 (val AND 2 = 2) w1 = Ok b w2"
    using second_bit_loop_result [of 1001 0 e "val AND 2 = 2" w1] by (auto simp add: b_def)
  have b: "b = (\<forall>i<1002. inb_val e (reads w + i) 0x6C AND 2 = 2)"
    by (simp add: b_def less_1002 r1 val_def)
  have "wait_0x6C_second_bit_unset e w =
      (if b then die_status 2 second_bit_message [] w2 else Ok () w2)"
    using i l by (simp add: wait_0x6C_second_bit_unset_def bind_Ok second_bit_message_def
        return_def)
  then show ?thesis unfolding b [symmetric] by simp
qed

lemma wait_first_exact:
  "if \<forall>i<1002. inb_val e (reads w + i) 0x6C AND 1 = 0
   then died 2 first_bit_message (wait_0x6C_first_bit_set e w)
   else returned (wait_0x6C_first_bit_set e w)"
proof -
  define val where "val = inb_val e (reads w) 0x6C"
  define w1 where "w1 = emit (Inb 0x6C val) (w\<lparr>reads := Suc (reads w)\<rparr>)"
  define b where "b = (val AND 1 = 0 \<and> (\<forall>i<1001. inb_val e (reads w1 + i) 0x6C AND 1 = 0))"
  have i: "inb e 0x6C w = Ok val w1" by (simp add: inb_def val_def w1_def Let_def)
  have r1: "reads w1 = Suc (reads w)" by (simp add: w1_def)
  obtain w2 where l: "first_bit_loop e 0 (val AND 1 = 0) w1 = Ok b w2"
    using first_bit_loop_result [of 1001 0 e "val AND 1 = 0" w1] by (auto simp add: b_def)
  have b: "b = (\<forall>i<1002. inb_val e (reads w + i) 0x6C AND 1 = 0)"
    by (simp add: b_def less_1002 r1 val_def)
  have "wait_0x6C_first_bit_set e w =
      (if b then die_status 2 first_bit_message [] w2 else Ok () w2)"
    using i l by (simp add: wait_0x6C_first_bit_set_def bind_Ok first_bit_message_def
        return_def)
  then show ?thesis unfolding b [symmetric] by simp
qed

subsection \<open>When the initialization ends the process\<close>

lemma match_device_cases:
  "if (device \<noteq> None \<and>
        filter (\<lambda>(vendor_id, device_id). vendor_id = 0x8086 \<and> device_id = 0x9cc3) devs \<noteq> []) \<or>
      2 \<le> length (filter (\<lambda>(vendor_id, device_id). vendor_id = 0x8086 \<and> device_id = 0x9cc3) devs)
   then died 1 multiple_devices_message (match_device devs idx device w)
   else \<exists>d w'. match_device devs idx device w = Ok d w' \<and>
          (d = None \<longleftrightarrow> device = None \<and>
             filter (\<lambda>(vendor_id, device_id). vendor_id = 0x8086 \<and> device_id = 0x9cc3) devs = [])"
proof (induction devs idx device w rule: match_device.induct)
  case (1 idx device w)
  then show ?case by simp
next
  case (2 vendor_id device_id rest idx device w)
  show ?case
  proof (cases "vendor_id = 0x8086 \<and> device_id = 0x9cc3")
    case True
    show ?thesis
    proof (cases device)
      case None
      then show ?thesis
        using True "2.IH"(1)
        by (fastforce simp add: bind_def printf_def Suc_le_eq split: if_splits)
    next
      case (Some d)
      then show ?thesis
        using True by (simp add: bind_def printf_def multiple_devices_message_def)
    qed
  next
    case False
    then show ?thesis
      using "2.IH"(2) by (auto simp add: bind_def printf_def)
  qed
qed

lemma initialize_pci_init_error:
  "pci_init_error e = Some (msg, args) \<Longrightarrow> died 1 msg (initialize_pci e w)"
  by (simp add: initialize_pci_def pci_init_def bind_def printf_def die_def vdie_status_def
      died_def diagnostic_def)

lemma initialize_pci_scan_error:
  "pci_init_error e = None \<Longrightarrow> pci_scan_error e = Some (msg, args) \<Longrightarrow>
     died 1 msg (initialize_pci e w)"
  by (simp add: initialize_pci_def pci_init_def pci_scan_bus_def bind_def printf_def return_def
      die_def vdie_status_def died_def diagnostic_def)

lemma initialize_pci_after_scan:
  assumes "pci_ok e"
  shows "\<exists>w'. initialize_pci e w =
           bind (match_device (pci_devices e) 0 None) (\<lambda>device.
             case device of
               None \<Rightarrow> die ''Could not match any device!'' []
             | Some d \<Rightarrow>
                 bind (printf ''  Setting PCI config\<newline>'' []) (\<lambda>_ w.
                   Ok () (emit (Pci_write_long d 0x84 0x40069) w))) w'"
  using assms
  by (simp add: initialize_pci_def pci_init_def pci_scan_bus_def pci_ok_def bind_def printf_def
      return_def) blast

lemma initialize_pci_no_device:
  assumes "pci_ok e" "matching_devices e = []"
  shows "died 1 no_device_message (initialize_pci e w)"
proof -
  obtain w' where i: "initialize_pci e w =
           bind (match_device (pci_devices e) 0 None) (\<lambda>device.
             case device of
               None \<Rightarrow> die ''Could not match any device!'' []
             | Some d \<Rightarrow>
                 bind (printf ''  Setting PCI config\<newline>'' []) (\<lambda>_ w.
                   Ok () (emit (Pci_write_long d 0x84 0x40069) w))) w'"
    using initialize_pci_after_scan [OF assms(1)] by blast
  from match_device_cases [of None "pci_devices e" 0 w'] assms(2)
  obtain w'' where "match_device (pci_devices e) 0 None w' = Ok None w''"
    by (auto simp add: matching_devices_def)
  then show ?thesis unfolding i by (simp add: bind_def no_device_message_def)
qed

lemma initialize_pci_multiple_devices:
  assumes "pci_ok e" "2 \<le> length (matching_devices e)"
  shows "died 1 multiple_devices_message (initialize_pci e w)"
proof -
  obtain w' where i: "initialize_pci e w =
           bind (match_device (pci_devices e) 0 None) (\<lambda>device.
             case device of
               None \<Rightarrow> die ''Could not match any device!'' []
             | Some d \<Rightarrow>
                 bind (printf ''  Setting PCI config\<newline>'' []) (\<lambda>_ w.
                   Ok () (emit (Pci_write_long d 0x84 0x40069) w))) w'"
    using initialize_pci_after_scan [OF assms(1)] by blast
  from match_device_cases [of None "pci_devices e" 0 w'] assms(2)
  have "died 1 multiple_devices_message (match_device (pci_devices e) 0 None w')"
    by (simp add: matching_devices_def)
  then show ?thesis unfolding i by (rule died_bind)
qed

lemma initialize_pci_one_device:
  assumes "pci_ok e" "length (matching_devices e) = 1"
  shows "returned (initialize_pci e w)"
proof -
  obtain w' where i: "initialize_pci e w =
           bind (match_device (pci_devices e) 0 None) (\<lambda>device.
             case device of
               None \<Rightarrow> die ''Could not match any device!'' []
             | Some d \<Rightarrow>
                 bind (printf ''  Setting PCI config\<newline>'' []) (\<lambda>_ w.
                   Ok () (emit (Pci_write_long d 0x84 0x40069) w))) w'"
    using initialize_pci_after_scan [OF assms(1)] by blast
  have "matching_devices e \<noteq> []" "\<not> 2 \<le> length (matching_devices e)"
    using assms(2) by auto
  with match_device_cases [of None "pci_devices e" 0 w']
  obtain d w'' where "match_device (pci_devices e) 0 None w' = Ok (Some d) w''"
    by (auto simp add: matching_devices_def)
  then show ?thesis unfolding i by (simp add: bind_def printf_def)
qed

lemma get_perm_cases:
  "if ioperm_ret e from num = 0 then returned (get_perm e from num w)
   else died 1 permission_message (get_perm e from num w)"
  by (simp add: get_perm_def Let_def permission_message_def)

lemma get_perms_cases:
  "if permissions_granted e then returned (get_perms e w)
   else died 1 permission_message (get_perms e w)"
  by (simp add: get_perms_def get_perm_def bind_def printf_def Let_def permissions_granted_def
      permission_message_def returned_def died_def die_def vdie_status_def diagnostic_def)

text \<open>What \<^verbatim>\<open>initialize\<close> does after \<^verbatim>\<open>initialize_pci\<close> and after \<^verbatim>\<open>get_perms\<close>.\<close>

lemma initialize_died_in_pci:
  "died status msg (initialize_pci e (emit (Stdout ''Initializing\<newline>'' []) w)) \<Longrightarrow>
     died status msg (initialize e w)"
  by (simp add: initialize_def printf_def bind_Ok died_bind)

lemma initialize_permission_denied:
  assumes "pci_ok e" "length (matching_devices e) = 1" "\<not> permissions_granted e"
  shows "died 1 permission_message (initialize e w)"
proof -
  obtain u1 w1 where p: "initialize_pci e (emit (Stdout ''Initializing\<newline>'' []) w) = Ok u1 w1"
    using initialize_pci_one_device [OF assms(1,2)] by (auto simp add: returned_iff)
  have "died 1 permission_message (get_perms e w1)"
    using get_perms_cases [of e w1] assms(3) by simp
  then show ?thesis
    using p by (simp add: initialize_def printf_def bind_Ok died_bind)
qed

lemma initialize_reaches_unknown_communication:
  assumes "pci_ok e" "length (matching_devices e) = 1" "permissions_granted e"
  shows "\<exists>w'. initialize e w = unknown_communication e w'"
proof -
  obtain u1 w1 where p: "initialize_pci e (emit (Stdout ''Initializing\<newline>'' []) w) = Ok u1 w1"
    using initialize_pci_one_device [OF assms(1,2)] by (auto simp add: returned_iff)
  obtain u2 w2 where g: "get_perms e w1 = Ok u2 w2"
    using get_perms_cases [of e w1] assms(3) by (auto simp add: returned_iff)
  show ?thesis
    using p g by (simp add: initialize_def bind_def printf_def outb_def) blast
qed

lemma unknown_communication_second_bit:
  assumes "\<forall>k. inb_val e k 0x6C AND 2 = 2"
  shows "died 2 second_bit_message (unknown_communication e w)"
proof -
  have "\<And>w. died 2 second_bit_message (wait_0x6C_second_bit_unset e w)"
    using wait_second_exact [of e] assms by simp
  then show ?thesis
    by (simp add: unknown_communication_def set_0x6C_def printf_def bind_Ok died_bind)
qed

lemma initialize_second_bit_stuck:
  assumes "pci_ok e" "length (matching_devices e) = 1" "permissions_granted e"
    and "\<forall>k. inb_val e k 0x6C AND 2 = 2"
  shows "died 2 second_bit_message (initialize e w)"
  using initialize_reaches_unknown_communication [OF assms(1-3), of w]
    unknown_communication_second_bit [OF assms(4)] by auto

lemma set_0x6C_returns:
  assumes "\<forall>k. inb_val e k 0x6C AND 2 \<noteq> 2"
  shows "returned (set_0x6C e val w)"
proof -
  have "\<And>w. returned (wait_0x6C_second_bit_unset e w)"
  proof -
    fix w :: world
    have "\<not> (\<forall>i<1002. inb_val e (reads w + i) 0x6C AND 2 = 2)"
      using assms by (auto intro: exI [of _ 0])
    with wait_second_exact [of e w] show "returned (wait_0x6C_second_bit_unset e w)"
      by simp
  qed
  then show ?thesis
    unfolding set_0x6C_def by (intro returned_bind returned_basic)
qed

lemma initialize_returns:
  assumes "pci_ok e" "length (matching_devices e) = 1" "permissions_granted e"
    and "\<forall>k. inb_val e k 0x6C AND 2 \<noteq> 2"
  shows "returned (initialize e w)"
proof -
  have "\<And>w. returned (unknown_communication e w)"
    unfolding unknown_communication_def
    by (intro returned_bind returned_basic set_0x6C_returns assms(4))
  then show ?thesis
    using initialize_reaches_unknown_communication [OF assms(1-3), of w] by auto
qed

lemma read_temperature_first_bit:
  assumes "\<forall>k. inb_val e k 0x6C AND 2 \<noteq> 2" "\<forall>k. inb_val e k 0x6C AND 1 = 0"
  shows "died 2 first_bit_message (read_temperature e w)"
proof -
  obtain u1 w1 where s: "set_0x6C e 0x44 w = Ok u1 w1"
    using set_0x6C_returns [OF assms(1), of "0x44" w] by (auto simp add: returned_iff)
  have "\<And>w. died 2 first_bit_message (wait_0x6C_first_bit_set e w)"
    using wait_first_exact [of e] assms(2) by simp
  then show ?thesis
    using s by (simp add: read_temperature_def outb_def bind_Ok died_bind)
qed

text \<open>On a command line that runs \<^verbatim>\<open>initialize\<close>, its death is the death of the process.\<close>

lemma main_died_in_initialize:
  assumes "runs_initialize argv" "died status msg (initialize e initial_world)"
  shows "died status msg (main passes e argv)"
  using assms by (auto simp add: runs_initialize_def main_def died_bind)

lemma main_first_bit:
  assumes "returned (initialize e initial_world)"
    and "\<forall>k. inb_val e k 0x6C AND 2 \<noteq> 2" "\<forall>k. inb_val e k 0x6C AND 1 = 0"
  shows "died 2 first_bit_message (main passes e [prog, ''temp''])"
    and "died 2 first_bit_message (main (Suc passes) e [prog, ''manager''])"
proof -
  note rt = read_temperature_first_bit [OF assms(2,3)]
  show "died 2 first_bit_message (main passes e [prog, ''temp''])"
    using assms(1) rt by (auto simp add: main_def returned_iff bind_Ok died_bind)
  have "\<And>w. died 2 first_bit_message
      (fan_manager (Suc passes) e (1 * 1000 * 1000) num_default_levels default_levels w)"
    using rt by (simp add: fan_manager_def fan_manager_pass_def died_bind)
  then show "died 2 first_bit_message (main (Suc passes) e [prog, ''manager''])"
    using assms(1) by (auto simp add: main_def returned_iff bind_Ok died_bind)
qed

section \<open>The argument of the fan speed command\<close>

lemmas strtol_defs =
  strtol_def isspace_def isdigit_def LONG_MAX_def LONG_MIN_def Let_def

declare decimal.simps [simp del]

lemma isdigit_digit_char: "d < 10 \<Longrightarrow> isdigit (digit_char d)"
  by (simp add: isdigit_def digit_char_def)

lemma digit_char_value: "d < 10 \<Longrightarrow> (of_char (digit_char d) :: int) - 48 = int d"
proof -
  assume "d < 10"
  then have "(of_char (digit_char d) :: nat) = 48 + d"
    by (simp add: digit_char_def)
  then have "int (of_char (digit_char d)) = 48 + int d" by simp
  then show ?thesis by (simp add: of_nat_of_char)
qed

lemma digits_value_append:
  "list_all isdigit xs \<Longrightarrow> digits_value acc (xs @ ys) = digits_value (digits_value acc xs) ys"
  by (induction xs arbitrary: acc) simp_all

lemma decimal_digits: "list_all isdigit (decimal n)"
proof (induction n rule: decimal.induct)
  case (1 n)
  show ?case
  proof (cases "n < 10")
    case True
    then show ?thesis by (subst decimal.simps) (simp add: isdigit_digit_char)
  next
    case False
    then show ?thesis
      using 1 by (subst decimal.simps) (simp add: isdigit_digit_char)
  qed
qed

lemma digits_value_decimal: "digits_value 0 (decimal n) = int n"
proof (induction n rule: decimal.induct)
  case (1 n)
  show ?case
  proof (cases "n < 10")
    case True
    then show ?thesis
      by (subst decimal.simps) (simp add: isdigit_digit_char digit_char_value)
  next
    case False
    have d: "n mod 10 < 10" by simp
    have "digits_value 0 (decimal n) =
        digits_value (digits_value 0 (decimal (n div 10))) [digit_char (n mod 10)]"
      using False by (subst decimal.simps) (simp add: digits_value_append decimal_digits)
    also have "\<dots> = int (n div 10) * 10 + int (n mod 10)"
      using 1 False by (simp add: isdigit_digit_char [OF d] digit_char_value [OF d])
    also have "\<dots> = int n" by presburger
    finally show ?thesis .
  qed
qed

lemma decimal_first: "\<exists>c cs. decimal n = c # cs \<and> isdigit c"
proof (cases "decimal n")
  case Nil
  then show ?thesis by (subst (asm) decimal.simps) (simp split: if_splits)
next
  case (Cons c cs)
  then show ?thesis using decimal_digits [of n] by simp
qed

lemma isdigit_not_space_sign:
  "isdigit c \<Longrightarrow> \<not> isspace c \<and> c \<noteq> CHR ''-'' \<and> c \<noteq> CHR ''+''"
  by (auto simp add: isdigit_def isspace_def)

lemma digit_char_of_isdigit: "isdigit c \<Longrightarrow> \<exists>d<10. c = digit_char d"
proof -
  assume c: "isdigit c"
  define d where "d = (of_char c :: nat) - 48"
  have "d < 10" "48 + d = of_char c"
    using c unfolding d_def isdigit_def by linarith+
  then have "d < 10 \<and> c = digit_char d" by (simp add: digit_char_def)
  then show ?thesis by blast
qed

lemma decimal_less_10: "n < 10 \<Longrightarrow> decimal n = [digit_char n]"
  by (subst decimal.simps) simp

lemma decimal_append_digit:
  "0 < n \<Longrightarrow> d < 10 \<Longrightarrow> decimal n @ [digit_char d] = decimal (10 * n + d)"
  by (subst (2) decimal.simps) simp

text \<open>Every non-empty string of digits is some zeros followed by a numeral.\<close>

lemma digits_form:
  "list_all isdigit ds \<Longrightarrow> ds \<noteq> [] \<Longrightarrow> \<exists>zeros n. ds = replicate zeros (CHR ''0'') @ decimal n"
proof (induction ds rule: rev_induct)
  case Nil
  then show ?case by simp
next
  case (snoc c ds)
  then obtain d where d: "d < 10" "c = digit_char d"
    using digit_char_of_isdigit [of c] by auto
  show ?case
  proof (cases "ds = []")
    case True
    then have "ds @ [c] = replicate 0 (CHR ''0'') @ decimal d"
      using d by (simp add: decimal_less_10)
    then show ?thesis by blast
  next
    case False
    then obtain zeros n where f: "ds = replicate zeros (CHR ''0'') @ decimal n"
      using snoc by auto
    show ?thesis
    proof (cases "n = 0")
      case True
      have z: "decimal 0 = [CHR ''0'']"
        by (simp add: decimal_less_10 digit_char_def char_of_def bit_Suc_0_iff)
      have "ds @ [c] = replicate (Suc zeros) (CHR ''0'') @ decimal d"
        using f True d z by (simp add: decimal_less_10 replicate_append_same)
      then show ?thesis by blast
    next
      case False
      then have "ds @ [c] = replicate zeros (CHR ''0'') @ decimal (10 * n + d)"
        using f d by (simp add: decimal_append_digit)
      then show ?thesis by blast
    qed
  qed
qed

lemma integer_numeral_digits:
  "list_all isdigit (replicate zeros (CHR ''0'') @ decimal n)"
proof -
  have "list_all isdigit (replicate zeros (CHR ''0''))"
    by (induction zeros) (simp_all add: isdigit_def)
  then show ?thesis by (simp add: decimal_digits)
qed

lemma decimal_integer_form:
  "decimal_integer a \<longleftrightarrow>
     (\<exists>sign zeros n. (sign = [] \<or> sign = ''+'' \<or> sign = ''-'') \<and>
        a = integer_numeral sign zeros n)"
proof
  assume a: "decimal_integer a"
  then obtain c cs where acs: "a = c # cs" by (cases a) (simp_all add: decimal_integer_def)
  show "\<exists>sign zeros n. (sign = [] \<or> sign = ''+'' \<or> sign = ''-'') \<and>
        a = integer_numeral sign zeros n"
  proof (cases "c = CHR ''-'' \<or> c = CHR ''+''")
    case True
    then have "list_all isdigit cs" "cs \<noteq> []"
      using a acs by (simp_all add: decimal_integer_def)
    then obtain zeros n where "cs = replicate zeros (CHR ''0'') @ decimal n"
      using digits_form by blast
    then have "a = integer_numeral [c] zeros n" using acs by (simp add: integer_numeral_def)
    then show ?thesis using True by blast
  next
    case False
    then have "list_all isdigit a" "a \<noteq> []"
      using a acs by (simp_all add: decimal_integer_def)
    then obtain zeros n where "a = replicate zeros (CHR ''0'') @ decimal n"
      using digits_form by blast
    then have "a = integer_numeral [] zeros n" by (simp add: integer_numeral_def)
    then show ?thesis by blast
  qed
next
  assume "\<exists>sign zeros n. (sign = [] \<or> sign = ''+'' \<or> sign = ''-'') \<and>
        a = integer_numeral sign zeros n"
  then obtain sign zeros n where s: "sign = [] \<or> sign = ''+'' \<or> sign = ''-''"
    and a: "a = integer_numeral sign zeros n" by blast
  let ?ds = "replicate zeros (CHR ''0'') @ decimal n"
  have ds: "list_all isdigit ?ds" by (rule integer_numeral_digits)
  obtain c cs where f: "?ds = c # cs" "isdigit c"
    using decimal_first [of n] ds by (cases zeros) (auto simp add: isdigit_def)
  show "decimal_integer a"
  proof (cases "sign = []")
    case True
    then show ?thesis
      using a ds f isdigit_not_space_sign [OF f(2)]
      by (simp add: decimal_integer_def integer_numeral_def)
  next
    case False
    then show ?thesis
      using s a ds f by (auto simp add: decimal_integer_def integer_numeral_def)
  qed
qed

text \<open>
  On a decimal integer \<^verbatim>\<open>strtol\<close> gives the integer, cut off at the ends of \<^verbatim>\<open>long\<close>.
\<close>

lemma digits_value_zeros:
  "digits_value 0 (replicate zeros (CHR ''0'') @ ds) = digits_value 0 ds"
  by (induction zeros) (simp_all add: isdigit_def)

lemma strtol_integer_numeral:
  assumes "sign = [] \<or> sign = ''+'' \<or> sign = ''-''"
  shows "strtol (integer_numeral sign zeros n) =
           max LONG_MIN (min LONG_MAX (integer_value sign n))"
proof -
  let ?ds = "replicate zeros (CHR ''0'') @ decimal n"
  have v: "digits_value 0 ?ds = int n"
    by (simp add: digits_value_zeros digits_value_decimal)
  obtain c cs where f: "?ds = c # cs" "isdigit c"
    using decimal_first [of n] by (cases zeros) (auto simp add: isdigit_def)
  note ns = isdigit_not_space_sign [OF f(2)]
  have sp: "\<not> isspace CHR ''-''" "\<not> isspace CHR ''+''" by (simp_all add: isspace_def)
  consider "sign = []" | "sign = ''+''" | "sign = ''-''" using assms by blast
  then show ?thesis
  proof cases
    case 1
    have "strtol (c # cs) = max LONG_MIN (min LONG_MAX (digits_value 0 (c # cs)))"
      using ns by (simp add: strtol_def Let_def)
    then show ?thesis
      using 1 v f(1) by (simp add: integer_numeral_def integer_value_def)
  next
    case 2
    have "strtol (CHR ''+'' # ?ds) = max LONG_MIN (min LONG_MAX (digits_value 0 ?ds))"
      using sp by (simp add: strtol_def Let_def)
    then show ?thesis
      using 2 v by (simp add: integer_numeral_def integer_value_def)
  next
    case 3
    have "strtol (CHR ''-'' # ?ds) = max LONG_MIN (min LONG_MAX (- digits_value 0 ?ds))"
      using sp by (simp add: strtol_def Let_def)
    then show ?thesis
      using 3 v by (simp add: integer_numeral_def integer_value_def)
  qed
qed

lemma strtol_in_range_iff:
  assumes "sign = [] \<or> sign = ''+'' \<or> sign = ''-''"
  shows "(0 \<le> strtol (integer_numeral sign zeros n) \<and>
          strtol (integer_numeral sign zeros n) \<le> 255) \<longleftrightarrow>
         (0 \<le> integer_value sign n \<and> integer_value sign n \<le> 255)"
    and "0 \<le> integer_value sign n \<Longrightarrow> integer_value sign n \<le> 255 \<Longrightarrow>
         strtol (integer_numeral sign zeros n) = integer_value sign n"
  unfolding strtol_integer_numeral [OF assms]
  by (auto simp add: LONG_MIN_def LONG_MAX_def)

text \<open>
  The command in terms of the value \<^verbatim>\<open>strtol\<close> gives, once \<^verbatim>\<open>initialize\<close> has returned,
  and when \<^verbatim>\<open>initialize\<close> has ended the process.
\<close>

lemma set_fan_speed_rejected:
  assumes "initialize e initial_world = Ok u w1" "strtol a < 0 \<or> 255 < strtol a"
  shows "main passes e [prog, ''set-fan-speed'', a] = die ''Invalid fan speed %s'' [S a] w1"
    and "exit_status (main passes e [prog, ''set-fan-speed'', a]) = Some 1"
    and "port_traffic (final_trace (main passes e [prog, ''set-fan-speed'', a])) =
           port_traffic (trace w1)"
    and "died 1 invalid_speed_message (main passes e [prog, ''set-fan-speed'', a])"
proof -
  show m: "main passes e [prog, ''set-fan-speed'', a] = die ''Invalid fan speed %s'' [S a] w1"
    using assms by (auto simp add: main_def bind_def Let_def)
  show "exit_status (main passes e [prog, ''set-fan-speed'', a]) = Some 1"
    unfolding m by (simp add: die_def vdie_status_def exit_status_def)
  show "port_traffic (final_trace (main passes e [prog, ''set-fan-speed'', a])) =
           port_traffic (trace w1)"
    unfolding m by (simp add: die_def vdie_status_def final_trace_def)
  show "died 1 invalid_speed_message (main passes e [prog, ''set-fan-speed'', a])"
    unfolding m by (simp add: invalid_speed_message_def)
qed

lemma set_fan_speed_accepted:
  assumes "initialize e initial_world = Ok u w1" "0 \<le> strtol a" "strtol a \<le> 255"
  shows "main passes e [prog, ''set-fan-speed'', a] =
           bind (set_fan_speed e (word_of_int (strtol a))) (\<lambda>_. Exit 0)
             (emit (Stdout ''Setting fan speed to %d\<newline>'' [I (strtol a)]) w1)"
proof -
  have u: "uint (word_of_int (strtol a) :: byte) = strtol a"
    using assms(2,3) by (simp add: uint_word_of_int take_bit_int_eq_self)
  show ?thesis
    using assms u by (simp add: main_def bind_def printf_def Let_def)
qed

lemma set_fan_speed_initialize_exit:
  assumes "initialize e initial_world = Exit status w'"
  shows "main passes e [prog, ''set-fan-speed'', a] = Exit status w'"
    and "status = 1 \<or> status = 2"
proof -
  show "main passes e [prog, ''set-fan-speed'', a] = Exit status w'"
    using assms by (simp add: main_def bind_def)
  show "status = 1 \<or> status = 2"
    using proper_initialize [of e initial_world] assms
    by (auto simp add: proper_def returned_iff generic_fatal_def handshake_timeout_def)
qed

lemma initialize_Ok_or_Exit:
  "(\<exists>u w1. initialize e w = Ok u w1) \<or> (\<exists>status w'. initialize e w = Exit status w')"
  using proper_initialize [of e w]
  by (cases "initialize e w")
    (auto simp add: proper_def returned_iff generic_fatal_def handshake_timeout_def)

text \<open>
  C8. Handshake timeouts end the process with status 2 and every other fatal error with
  status 1. In one direction, every \<^verbatim>\<open>exit\<close> of the process is classified: status 2 with one
  of the two handshake messages, or status 1 with one of the four messages of the program
  or a message of libpci, or status 0 with no diagnostic. In the other direction, each
  failing condition ends the process as it should. A wait ends it with status 2 exactly
  when its bit is wrong in all 1002 reads it makes. On a command line that runs
  \<^verbatim>\<open>initialize\<close>: a failure of libpci, no matching device, several matching devices and a
  refused \<^verbatim>\<open>ioperm\<close> end it with status 1 and their message; a status port whose second bit
  is always set ends it with status 2; a status port whose second bit is clear and whose
  first bit never comes ends \<^verbatim>\<open>temp\<close> and \<^verbatim>\<open>manager\<close> with status 2. And an argument of
  \<^verbatim>\<open>set-fan-speed\<close> that \<^verbatim>\<open>strtol\<close> reads as a value outside 0 .. 255 ends it with status 1.
\<close>

theorem exit_codes:
  "(main passes e argv = Exit status w \<longrightarrow>
      (status = 2 \<and> diagnostic w \<in> {Some second_bit_message, Some first_bit_message}) \<or>
      (status = 1 \<and>
       diagnostic w \<in> {Some permission_message, Some multiple_devices_message,
                        Some no_device_message, Some invalid_speed_message}
                       \<union> libpci_messages e) \<or>
      (status = 0 \<and> diagnostic w = None)) \<and>
   (if \<forall>i<1002. inb_val e (reads w0 + i) 0x6C AND 2 = 2
    then died 2 second_bit_message (wait_0x6C_second_bit_unset e w0)
    else returned (wait_0x6C_second_bit_unset e w0)) \<and>
   (if \<forall>i<1002. inb_val e (reads w0 + i) 0x6C AND 1 = 0
    then died 2 first_bit_message (wait_0x6C_first_bit_set e w0)
    else returned (wait_0x6C_first_bit_set e w0)) \<and>
   (runs_initialize argv \<and> pci_init_error e = Some (msg, args) \<longrightarrow>
      died 1 msg (main passes e argv)) \<and>
   (runs_initialize argv \<and> pci_init_error e = None \<and> pci_scan_error e = Some (msg, args) \<longrightarrow>
      died 1 msg (main passes e argv)) \<and>
   (runs_initialize argv \<and> pci_ok e \<and> matching_devices e = [] \<longrightarrow>
      died 1 no_device_message (main passes e argv)) \<and>
   (runs_initialize argv \<and> pci_ok e \<and> 2 \<le> length (matching_devices e) \<longrightarrow>
      died 1 multiple_devices_message (main passes e argv)) \<and>
   (runs_initialize argv \<and> pci_ok e \<and> length (matching_devices e) = 1 \<and>
    \<not> permissions_granted e \<longrightarrow>
      died 1 permission_message (main passes e argv)) \<and>
   (runs_initialize argv \<and> pci_ok e \<and> length (matching_devices e) = 1 \<and>
    permissions_granted e \<and> (\<forall>k. inb_val e k 0x6C AND 2 = 2) \<longrightarrow>
      died 2 second_bit_message (main passes e argv)) \<and>
   (pci_ok e \<and> length (matching_devices e) = 1 \<and> permissions_granted e \<and>
    (\<forall>k. inb_val e k 0x6C AND 2 \<noteq> 2) \<and> (\<forall>k. inb_val e k 0x6C AND 1 = 0) \<longrightarrow>
      died 2 first_bit_message (main passes e [prog, ''temp'']) \<and>
      died 2 first_bit_message (main (Suc passes) e [prog, ''manager''])) \<and>
   (initialize e initial_world = Ok u w1 \<and> (strtol a < 0 \<or> 255 < strtol a) \<longrightarrow>
      died 1 invalid_speed_message (main passes e [prog, ''set-fan-speed'', a]))"
proof -
  have classified: "main passes e argv = Exit status w \<longrightarrow>
      (status = 2 \<and> diagnostic w \<in> {Some second_bit_message, Some first_bit_message}) \<or>
      (status = 1 \<and>
       diagnostic w \<in> {Some permission_message, Some multiple_devices_message,
                        Some no_device_message, Some invalid_speed_message}
                       \<union> libpci_messages e) \<or>
      (status = 0 \<and> diagnostic w = None)"
    using proper_end_main [of e passes argv]
    by (auto simp add: proper_end_def still_running_iff generic_fatal_def
        handshake_timeout_def clean_exit_def)
  have pci1: "runs_initialize argv \<and> pci_init_error e = Some (msg, args) \<longrightarrow>
      died 1 msg (main passes e argv)"
    by (auto intro!: main_died_in_initialize initialize_died_in_pci
        initialize_pci_init_error)
  have pci2: "runs_initialize argv \<and> pci_init_error e = None \<and>
      pci_scan_error e = Some (msg, args) \<longrightarrow> died 1 msg (main passes e argv)"
    by (auto intro!: main_died_in_initialize initialize_died_in_pci
        initialize_pci_scan_error)
  have none: "runs_initialize argv \<and> pci_ok e \<and> matching_devices e = [] \<longrightarrow>
      died 1 no_device_message (main passes e argv)"
    by (auto intro!: main_died_in_initialize initialize_died_in_pci
        initialize_pci_no_device)
  have several: "runs_initialize argv \<and> pci_ok e \<and> 2 \<le> length (matching_devices e) \<longrightarrow>
      died 1 multiple_devices_message (main passes e argv)"
    by (auto intro!: main_died_in_initialize initialize_died_in_pci
        initialize_pci_multiple_devices)
  have perm: "runs_initialize argv \<and> pci_ok e \<and> length (matching_devices e) = 1 \<and>
      \<not> permissions_granted e \<longrightarrow> died 1 permission_message (main passes e argv)"
    by (auto intro!: main_died_in_initialize initialize_permission_denied)
  have second: "runs_initialize argv \<and> pci_ok e \<and> length (matching_devices e) = 1 \<and>
      permissions_granted e \<and> (\<forall>k. inb_val e k 0x6C AND 2 = 2) \<longrightarrow>
      died 2 second_bit_message (main passes e argv)"
    by (auto intro!: main_died_in_initialize initialize_second_bit_stuck)
  have first: "pci_ok e \<and> length (matching_devices e) = 1 \<and> permissions_granted e \<and>
      (\<forall>k. inb_val e k 0x6C AND 2 \<noteq> 2) \<and> (\<forall>k. inb_val e k 0x6C AND 1 = 0) \<longrightarrow>
      died 2 first_bit_message (main passes e [prog, ''temp'']) \<and>
      died 2 first_bit_message (main (Suc passes) e [prog, ''manager''])"
    by (auto intro!: main_first_bit initialize_returns)
  have range: "initialize e initial_world = Ok u w1 \<and> (strtol a < 0 \<or> 255 < strtol a) \<longrightarrow>
      died 1 invalid_speed_message (main passes e [prog, ''set-fan-speed'', a])"
    using set_fan_speed_rejected(4) [of e u w1 a passes prog] by blast
  from classified wait_second_exact [of e w0] wait_first_exact [of e w0]
    pci1 pci2 none several perm second first range
  show ?thesis by (intro conjI)
qed

theorem exit_codes_witness:
  "died 2 second_bit_message (main 0 e_stuck [''x62-fancontrol'', ''temp'']) \<and>
   died 2 second_bit_message (main 0 e_stuck [''x62-fancontrol'', ''set-fan-speed'', ''10'']) \<and>
   died 2 first_bit_message (main 0 e_silent [''x62-fancontrol'', ''temp'']) \<and>
   died 2 first_bit_message (main (Suc 0) e_silent [''x62-fancontrol'', ''manager'']) \<and>
   died 1 no_device_message (main 0 e_nodev [''x62-fancontrol'', ''manager'']) \<and>
   died 1 multiple_devices_message (main 0 e_twodev [''x62-fancontrol'', ''temp'']) \<and>
   died 1 permission_message (main 0 e_noperm [''x62-fancontrol'', ''temp'']) \<and>
   died 1 ''Cannot find any working access method.'' (main 0 e_nopci [''x62-fancontrol'', ''temp'']) \<and>
   died 1 invalid_speed_message (main 0 e_ok [''x62-fancontrol'', ''set-fan-speed'', ''256'']) \<and>
   died 2 second_bit_message (wait_0x6C_second_bit_unset e_stuck initial_world) \<and>
   returned (wait_0x6C_second_bit_unset e_ok initial_world) \<and>
   died 2 first_bit_message (wait_0x6C_first_bit_set e_silent initial_world) \<and>
   returned (wait_0x6C_first_bit_set e_ok initial_world) \<and>
   (\<exists>w. main 0 e_stuck [''x62-fancontrol'', ''temp''] = Exit 2 w \<and>
      diagnostic w \<in> {Some second_bit_message, Some first_bit_message})"
proof -
  let ?temp = "[''x62-fancontrol'', ''temp'']"
  have ri: "runs_initialize ?temp" "runs_initialize [''x62-fancontrol'', ''manager'']"
    "runs_initialize [''x62-fancontrol'', ''set-fan-speed'', ''10'']"
    by (simp_all add: runs_initialize_def)
  have m: "pci_ok e_ok" "length (matching_devices e_ok) = 1" "permissions_granted e_ok"
    "pci_ok e_stuck" "length (matching_devices e_stuck) = 1" "permissions_granted e_stuck"
    "pci_ok e_silent" "length (matching_devices e_silent) = 1" "permissions_granted e_silent"
    "pci_ok e_nodev" "matching_devices e_nodev = []"
    "pci_ok e_twodev" "2 \<le> length (matching_devices e_twodev)"
    "pci_ok e_noperm" "length (matching_devices e_noperm) = 1" "\<not> permissions_granted e_noperm"
    "pci_init_error e_nopci = Some (''Cannot find any working access method.'', [])"
    by (simp_all add: machine_defs pci_ok_def matching_devices_def permissions_granted_def)
  have p: "\<forall>k. inb_val e_stuck k 0x6C AND 2 = 2"
    "\<forall>k. inb_val e_silent k 0x6C AND 2 \<noteq> 2" "\<forall>k. inb_val e_silent k 0x6C AND 1 = 0"
    "\<not> (\<forall>i<1002. inb_val e_ok (reads initial_world + i) 0x6C AND 2 = 2)"
    "\<not> (\<forall>i<1002. inb_val e_ok (reads initial_world + i) 0x6C AND 1 = 0)"
    by (auto simp add: machine_defs intro: exI [of _ 0])
  have "\<exists>w1. initialize e_ok initial_world = Ok () w1"
    by (simp add: program_defs machine_defs)
  then obtain w1 where i: "initialize e_ok initial_world = Ok () w1" by blast
  have s: "strtol ''256'' < 0 \<or> 255 < strtol ''256''" by (simp add: strtol_defs)
  note stuck = exit_codes [where e = e_stuck and passes = 0 and ?w0.0 = initial_world]
  have a: "died 2 second_bit_message (main 0 e_stuck ?temp)"
    using stuck [where argv = ?temp] ri m p by simp
  then obtain w where w: "main 0 e_stuck ?temp = Exit 2 w"
    by (cases "main 0 e_stuck ?temp") (simp_all add: died_def)
  have c: "diagnostic w \<in> {Some second_bit_message, Some first_bit_message}"
    using stuck [where argv = ?temp and status = 2 and w = w] w by simp
  have b: "died 2 second_bit_message
      (main 0 e_stuck [''x62-fancontrol'', ''set-fan-speed'', ''10''])"
    using stuck [where argv = "[''x62-fancontrol'', ''set-fan-speed'', ''10'']"] ri m p by simp
  have d: "died 2 second_bit_message (wait_0x6C_second_bit_unset e_stuck initial_world)"
    using stuck [where argv = ?temp] p by simp
  note silent = exit_codes [where e = e_silent and passes = 0 and ?w0.0 = initial_world
      and prog = "''x62-fancontrol''"]
  have f: "died 2 first_bit_message (main 0 e_silent ?temp)"
    "died 2 first_bit_message (main (Suc 0) e_silent [''x62-fancontrol'', ''manager''])"
    "died 2 first_bit_message (wait_0x6C_first_bit_set e_silent initial_world)"
    using silent [where argv = ?temp] m p by simp_all
  note ok = exit_codes [where e = e_ok and passes = 0 and ?w0.0 = initial_world
      and prog = "''x62-fancontrol''" and a = "''256''" and u = "()" and ?w1.0 = w1]
  have g: "returned (wait_0x6C_second_bit_unset e_ok initial_world)"
    "returned (wait_0x6C_first_bit_set e_ok initial_world)"
    "died 1 invalid_speed_message (main 0 e_ok [''x62-fancontrol'', ''set-fan-speed'', ''256''])"
    using ok [where argv = ?temp] p i s by simp_all
  have h: "died 1 no_device_message (main 0 e_nodev [''x62-fancontrol'', ''manager''])"
    using exit_codes [where e = e_nodev and passes = 0
        and argv = "[''x62-fancontrol'', ''manager'']"] ri m by simp
  have j: "died 1 multiple_devices_message (main 0 e_twodev ?temp)"
    using exit_codes [where e = e_twodev and passes = 0 and argv = ?temp] ri m by simp
  have k: "died 1 permission_message (main 0 e_noperm ?temp)"
    using exit_codes [where e = e_noperm and passes = 0 and argv = ?temp] ri m by simp
  have l: "died 1 ''Cannot find any working access method.'' (main 0 e_nopci ?temp)"
    using exit_codes [where e = e_nopci and passes = 0 and argv = ?temp
        and msg = "''Cannot find any working access method.''" and args = "[]"] ri m by simp
  from a b f g h j k l d w c show ?thesis by simp
qed

section \<open>The commands\<close>

text \<open>
  C7 (as amended). \<^verbatim>\<open>set-fan-speed\<close> first runs \<^verbatim>\<open>initialize\<close>, which returns or ends the
  process. When it ends the process, that is the end of the command, whatever the
  argument: the status is the one \<^verbatim>\<open>initialize\<close> gave, 1 or 2, and \<^verbatim>\<open>set_fan_speed\<close> is not
  reached. When it has returned and the argument is a decimal integer (an optional sign,
  leading zeros, a numeral): for a value in 0 .. 255 the program prints the value and calls
  \<^verbatim>\<open>set_fan_speed\<close> with it, then ends with status 0 when that call returns; for a value
  below 0 or above 255 the process dies with \<^verbatim>\<open>Invalid fan speed\<close> and status 1, and no port
  is touched after the initialization, so \<^verbatim>\<open>set_fan_speed\<close> is not called. Every string
  that \<open>decimal_integer\<close> accepts is such an argument (\<open>decimal_integer_form\<close>).
\<close>

theorem set_fan_speed_command:
  assumes "sign = [] \<or> sign = ''+'' \<or> sign = ''-''"
  shows
    "(case initialize e initial_world of
        Ok u w1 \<Rightarrow>
          if 0 \<le> integer_value sign n \<and> integer_value sign n \<le> 255
          then main passes e [prog, ''set-fan-speed'', integer_numeral sign zeros n] =
                 bind (set_fan_speed e (word_of_int (integer_value sign n))) (\<lambda>_. Exit 0)
                   (emit (Stdout ''Setting fan speed to %d\<newline>'' [I (integer_value sign n)])
                      w1)
          else died 1 invalid_speed_message
                 (main passes e [prog, ''set-fan-speed'', integer_numeral sign zeros n]) \<and>
               exit_status
                 (main passes e [prog, ''set-fan-speed'', integer_numeral sign zeros n]) =
                 Some 1 \<and>
               port_traffic (final_trace
                 (main passes e [prog, ''set-fan-speed'', integer_numeral sign zeros n])) =
                 port_traffic (trace w1)
      | Exit status w' \<Rightarrow>
          main passes e [prog, ''set-fan-speed'', integer_numeral sign zeros n] =
            Exit status w' \<and>
          (status = 1 \<or> status = 2)
      | Fault w' \<Rightarrow> False
      | Running w' \<Rightarrow> False) \<and>
     (initialize e initial_world = Exit status w' \<longrightarrow>
        main passes e [prog, ''set-fan-speed'', a] = Exit status w' \<and>
        (status = 1 \<or> status = 2))"
proof -
  let ?a = "integer_numeral sign zeros n"
  let ?v = "integer_value sign n"
  have any: "initialize e initial_world = Exit status w' \<longrightarrow>
        main passes e [prog, ''set-fan-speed'', a] = Exit status w' \<and>
        (status = 1 \<or> status = 2)"
    using set_fan_speed_initialize_exit(1) [of e status w' passes prog a]
      set_fan_speed_initialize_exit(2) [of e status w'] by blast
  consider u w1 where "initialize e initial_world = Ok u w1"
    | st w'' where "initialize e initial_world = Exit st w''"
    using initialize_Ok_or_Exit [of e initial_world] by blast
  then have "case initialize e initial_world of
        Ok u w1 \<Rightarrow>
          if 0 \<le> ?v \<and> ?v \<le> 255
          then main passes e [prog, ''set-fan-speed'', ?a] =
                 bind (set_fan_speed e (word_of_int ?v)) (\<lambda>_. Exit 0)
                   (emit (Stdout ''Setting fan speed to %d\<newline>'' [I ?v]) w1)
          else died 1 invalid_speed_message (main passes e [prog, ''set-fan-speed'', ?a]) \<and>
               exit_status (main passes e [prog, ''set-fan-speed'', ?a]) = Some 1 \<and>
               port_traffic (final_trace (main passes e [prog, ''set-fan-speed'', ?a])) =
                 port_traffic (trace w1)
      | Exit status w' \<Rightarrow>
          main passes e [prog, ''set-fan-speed'', ?a] = Exit status w' \<and>
          (status = 1 \<or> status = 2)
      | Fault w' \<Rightarrow> False
      | Running w' \<Rightarrow> False"
  proof cases
    case 1
    show ?thesis
    proof (cases "0 \<le> ?v \<and> ?v \<le> 255")
      case True
      then have s: "strtol ?a = ?v"
        using strtol_in_range_iff(2) [OF assms] by blast
      then have "0 \<le> strtol ?a" "strtol ?a \<le> 255" using True by simp_all
      from set_fan_speed_accepted [OF 1 this, of passes prog]
      show ?thesis using 1 True s by simp
    next
      case False
      then have "strtol ?a < 0 \<or> 255 < strtol ?a"
        using strtol_in_range_iff(1) [OF assms, of zeros n] by auto
      from set_fan_speed_rejected(2,3,4) [OF 1 this, of passes prog]
      show ?thesis using 1 False by auto
    qed
  next
    case 2
    from set_fan_speed_initialize_exit(1) [OF 2, of passes prog ?a]
      set_fan_speed_initialize_exit(2) [OF 2]
    show ?thesis using 2 by simp
  qed
  with any show ?thesis by blast
qed

theorem set_fan_speed_command_witness:
  "integer_numeral [] 0 255 = ''255'' \<and> integer_numeral [] 0 256 = ''256'' \<and>
   integer_numeral ''-'' 0 1 = ''-1'' \<and> integer_numeral ''+'' 2 7 = ''+007'' \<and>
   (\<exists>w1. initialize e_ok initial_world = Ok () w1 \<and>
     main 0 e_ok [''x62-fancontrol'', ''set-fan-speed'', ''255''] =
       bind (set_fan_speed e_ok 255) (\<lambda>_. Exit 0)
         (emit (Stdout ''Setting fan speed to %d\<newline>'' [I 255]) w1) \<and>
     main 0 e_ok [''x62-fancontrol'', ''set-fan-speed'', ''+007''] =
       bind (set_fan_speed e_ok 7) (\<lambda>_. Exit 0)
         (emit (Stdout ''Setting fan speed to %d\<newline>'' [I 7]) w1) \<and>
     died 1 invalid_speed_message
       (main 0 e_ok [''x62-fancontrol'', ''set-fan-speed'', ''256'']) \<and>
     port_traffic (final_trace (main 0 e_ok [''x62-fancontrol'', ''set-fan-speed'', ''256''])) =
       port_traffic (trace w1) \<and>
     died 1 invalid_speed_message
       (main 0 e_ok [''x62-fancontrol'', ''set-fan-speed'', ''-1'']) \<and>
     port_traffic (final_trace (main 0 e_ok [''x62-fancontrol'', ''set-fan-speed'', ''-1''])) =
       port_traffic (trace w1)) \<and>
   exit_status (main 0 e_stuck [''x62-fancontrol'', ''set-fan-speed'', ''255'']) = Some 2 \<and>
   exit_status (main 0 e_nodev [''x62-fancontrol'', ''set-fan-speed'', ''255'']) = Some 1"
proof -
  have "\<exists>w1. initialize e_ok initial_world = Ok () w1"
    by (simp add: program_defs machine_defs)
  then obtain w1 where i: "initialize e_ok initial_world = Ok () w1" by blast
  have d: "integer_numeral [] 0 255 = ''255''" "integer_numeral [] 0 256 = ''256''"
    "integer_numeral ''-'' 0 1 = ''-1''" "integer_numeral ''+'' 2 7 = ''+007''"
    by (simp_all add: integer_numeral_def decimal.simps digit_char_def char_of_def
        bit_Suc_0_iff numeral_2_eq_2)
  have v: "integer_value [] 255 = 255" "integer_value [] 256 = 256"
    "integer_value ''-'' 1 = - 1" "integer_value ''+'' 7 = 7"
    by (simp_all add: integer_value_def)
  have m: "pci_ok e_stuck" "length (matching_devices e_stuck) = 1" "permissions_granted e_stuck"
    "\<forall>k. inb_val e_stuck k 0x6C AND 2 = 2" "pci_ok e_nodev" "matching_devices e_nodev = []"
    by (simp_all add: machine_defs pci_ok_def matching_devices_def permissions_granted_def)
  obtain w2 where s: "initialize e_stuck initial_world = Exit 2 w2"
    using initialize_second_bit_stuck [OF m(1-4), of initial_world]
    by (cases "initialize e_stuck initial_world") (simp_all add: died_def)
  obtain w3 where n: "initialize e_nodev initial_world = Exit 1 w3"
    using initialize_died_in_pci [OF initialize_pci_no_device [OF m(5,6)], of initial_world]
    by (cases "initialize e_nodev initial_world") (simp_all add: died_def)
  note ok = set_fan_speed_command [where e = e_ok and passes = 0 and prog = "''x62-fancontrol''",
      unfolded i result.case]
  have a: "main 0 e_ok [''x62-fancontrol'', ''set-fan-speed'', ''255''] =
       bind (set_fan_speed e_ok 255) (\<lambda>_. Exit 0)
         (emit (Stdout ''Setting fan speed to %d\<newline>'' [I 255]) w1)"
    using ok [of "[]" 255 0, unfolded d v] by simp
  have b: "main 0 e_ok [''x62-fancontrol'', ''set-fan-speed'', ''+007''] =
       bind (set_fan_speed e_ok 7) (\<lambda>_. Exit 0)
         (emit (Stdout ''Setting fan speed to %d\<newline>'' [I 7]) w1)"
    using ok [of "''+''" 7 2, unfolded d v] by simp
  have c: "died 1 invalid_speed_message
       (main 0 e_ok [''x62-fancontrol'', ''set-fan-speed'', ''256'']) \<and>
     port_traffic (final_trace (main 0 e_ok [''x62-fancontrol'', ''set-fan-speed'', ''256''])) =
       port_traffic (trace w1)"
    using ok [of "[]" 256 0, unfolded d v] by simp
  have e: "died 1 invalid_speed_message
       (main 0 e_ok [''x62-fancontrol'', ''set-fan-speed'', ''-1'']) \<and>
     port_traffic (final_trace (main 0 e_ok [''x62-fancontrol'', ''set-fan-speed'', ''-1''])) =
       port_traffic (trace w1)"
    using ok [of "''-''" 1 0, unfolded d v] by simp
  have f: "exit_status (main 0 e_stuck [''x62-fancontrol'', ''set-fan-speed'', ''255'']) = Some 2"
    using set_fan_speed_command [where e = e_stuck and passes = 0 and prog = "''x62-fancontrol''"
        and sign = "[]" and n = 255 and zeros = 0, unfolded s result.case d]
    by (simp add: exit_status_def)
  have g: "exit_status (main 0 e_nodev [''x62-fancontrol'', ''set-fan-speed'', ''255'']) = Some 1"
    using set_fan_speed_command [where e = e_nodev and passes = 0 and prog = "''x62-fancontrol''"
        and sign = "[]" and n = 255 and zeros = 0, unfolded n result.case d]
    by (simp add: exit_status_def)
  from i a b c e f g d show ?thesis by blast
qed

text \<open>
  C7, as the specification states it, fails twice. The argument \<^verbatim>\<open>abc\<close> is not an
  integer, yet \<^verbatim>\<open>strtol\<close> gives 0 for it: on a machine that answers, the program sends the
  fan speed command with speed 0 and ends with status 0. And the argument \<^verbatim>\<open>300\<close> is out
  of range, yet on a machine whose status port is stuck the process ends with status 2, in
  \<^verbatim>\<open>initialize\<close>, before the argument is looked at.
\<close>

theorem set_fan_speed_counterexample:
  "strtol ''abc'' = 0 \<and>
   exit_status (main 0 e_ok [''x62-fancontrol'', ''set-fan-speed'', ''abc'']) = Some 0 \<and>
   port_traffic (final_trace (main 0 e_ok [''x62-fancontrol'', ''set-fan-speed'', ''abc''])) =
     [Outb 0x07 0x4E, Outb 0x12 0x4F, Outb 0x30 0x4E, Outb 0x00 0x4F, Outb 0x61 0x4E,
      Outb 0x68 0x4F, Outb 0x63 0x4E, Outb 0x6C 0x4F, Outb 0x30 0x4E, Outb 0x01 0x4F,
      Outb 0x33 0x6C, Outb 0x06 0x68, Outb 0x55 0x6C, Outb 0x00 0x68] \<and>
   strtol ''300'' = 300 \<and>
   exit_status (main 0 e_stuck [''x62-fancontrol'', ''set-fan-speed'', ''300'']) = Some 2"
proof -
  have m: "pci_ok e_stuck" "length (matching_devices e_stuck) = 1" "permissions_granted e_stuck"
    "\<forall>k. inb_val e_stuck k 0x6C AND 2 = 2"
    by (simp_all add: machine_defs pci_ok_def matching_devices_def permissions_granted_def)
  obtain w2 where "initialize e_stuck initial_world = Exit 2 w2"
    using initialize_second_bit_stuck [OF m, of initial_world]
    by (cases "initialize e_stuck initial_world") (simp_all add: died_def)
  then have "exit_status (main 0 e_stuck [''x62-fancontrol'', ''set-fan-speed'', ''300'']) = Some 2"
    by (simp add: main_def bind_def exit_status_def)
  moreover have "strtol ''abc'' = 0" "strtol ''300'' = 300"
    by (simp_all add: strtol_defs)
  moreover have
    "exit_status (main 0 e_ok [''x62-fancontrol'', ''set-fan-speed'', ''abc'']) = Some 0 \<and>
     port_traffic (final_trace (main 0 e_ok [''x62-fancontrol'', ''set-fan-speed'', ''abc''])) =
     [Outb 0x07 0x4E, Outb 0x12 0x4F, Outb 0x30 0x4E, Outb 0x00 0x4F, Outb 0x61 0x4E,
      Outb 0x68 0x4F, Outb 0x63 0x4E, Outb 0x6C 0x4F, Outb 0x30 0x4E, Outb 0x01 0x4F,
      Outb 0x33 0x6C, Outb 0x06 0x68, Outb 0x55 0x6C, Outb 0x00 0x68]"
    by (simp add: program_defs strtol_defs machine_defs exit_status_def final_trace_def)
  ultimately show ?thesis by simp
qed

text \<open>
  C10. A command line that is none of \<^verbatim>\<open>temp\<close>, \<^verbatim>\<open>set-fan-speed <n>\<close> and \<^verbatim>\<open>manager\<close>
  makes the program print the usage text to stderr and end with status 0, before it has
  touched the machine.
\<close>

theorem unknown_command_usage:
  assumes "\<not> (length argv = 2 \<and> argv ! 1 = ''temp'')"
    and "\<not> (length argv = 3 \<and> argv ! 1 = ''set-fan-speed'')"
    and "\<not> (length argv = 2 \<and> argv ! 1 = ''manager'')"
  shows "main passes e argv = Exit 0 (emit (Stderr usage_text []) initial_world)"
  using assms by (auto simp add: main_def usage_def)

theorem unknown_command_usage_witness:
  "main 0 e_ok [''x62-fancontrol''] = Exit 0 (emit (Stderr usage_text []) initial_world) \<and>
   main 0 e_ok [''x62-fancontrol'', ''fly''] =
     Exit 0 (emit (Stderr usage_text []) initial_world) \<and>
   main 0 e_ok [''x62-fancontrol'', ''set-fan-speed''] =
     Exit 0 (emit (Stderr usage_text []) initial_world) \<and>
   main 0 e_ok [''x62-fancontrol'', ''temp'', ''now''] =
     Exit 0 (emit (Stderr usage_text []) initial_world)"
  using unknown_command_usage [of "[''x62-fancontrol'']" 0 e_ok]
    unknown_command_usage [of "[''x62-fancontrol'', ''fly'']" 0 e_ok]
    unknown_command_usage [of "[''x62-fancontrol'', ''set-fan-speed'']" 0 e_ok]
    unknown_command_usage [of "[''x62-fancontrol'', ''temp'', ''now'']" 0 e_ok]
  by simp

end
